theory Spec2Isabelle
  imports Complex_Main
begin

section \<open>JavaScript values\<close>

text \<open>
  The page \<^verbatim>\<open>src/frontend/src/pages/Search.tsx\<close> handles records that come from
  \<^verbatim>\<open>JSON.parse\<close> and from the HTTP client, typed \<^verbatim>\<open>any\<close> or cast without a check, so
  they are modelled dynamically. Numbers are the finite ones (JSON has no NaN and no
  infinity), taken as rationals. An object is the list of its own properties in insertion
  order, each key once; a property is looked up by its first entry.
\<close>

datatype jsval =
    VUndefined
  | VNull
  | VBool bool
  | VNum rat
  | VStr string
  | VArr "jsval list"
  | VObj "(string \<times> jsval) list"

text \<open>What the source can throw: the two built-in errors, and the rejection of an HTTP
  call, which carries the \<^verbatim>\<open>response\<close> property of the client's error object.\<close>

datatype thrown = SyntaxError | TypeError | AxiosError jsval

text \<open>Sequencing of steps that may throw.\<close>

definition andThen :: "thrown + 'a \<Rightarrow> ('a \<Rightarrow> thrown + 'b) \<Rightarrow> thrown + 'b" where
  "andThen m f = (case m of Inl e \<Rightarrow> Inl e | Inr x \<Rightarrow> f x)"

fun mapM :: "('a \<Rightarrow> thrown + 'b) \<Rightarrow> 'a list \<Rightarrow> thrown + 'b list" where
  "mapM f [] = Inr []"
| "mapM f (x # xs) = andThen (f x) (\<lambda>y. andThen (mapM f xs) (\<lambda>ys. Inr (y # ys)))"

fun filterM :: "('a \<Rightarrow> thrown + bool) \<Rightarrow> 'a list \<Rightarrow> thrown + 'a list" where
  "filterM p [] = Inr []"
| "filterM p (x # xs) =
     andThen (p x) (\<lambda>b. andThen (filterM p xs) (\<lambda>ys. Inr (if b then x # ys else ys)))"

text \<open>Truthiness, as \<^verbatim>\<open>!x\<close>, \<^verbatim>\<open>x ? a : b\<close>, \<^verbatim>\<open>x || y\<close> and \<^verbatim>\<open>x && y\<close> test it.\<close>

fun truthy :: "jsval \<Rightarrow> bool" where
  "truthy VUndefined = False"
| "truthy VNull = False"
| "truthy (VBool b) = b"
| "truthy (VNum n) = (n \<noteq> 0)"
| "truthy (VStr s) = (s \<noteq> [])"
| "truthy (VArr xs) = True"
| "truthy (VObj kvs) = True"

definition js_or :: "jsval \<Rightarrow> jsval \<Rightarrow> jsval" where
  "js_or a b = (if truthy a then a else b)"

fun nullish :: "jsval \<Rightarrow> bool" where
  "nullish VUndefined = True"
| "nullish VNull = True"
| "nullish v = False"

text \<open>Decimal digits of an array index, as property keys are written.\<close>

fun show_nat :: "nat \<Rightarrow> string" where
  "show_nat n =
     (if n < 10 then [''0123456789'' ! n]
      else show_nat (n div 10) @ [''0123456789'' ! (n mod 10)])"

declare show_nat.simps [simp del]

text \<open>The own enumerable properties of a value, which is what an object spread
  \<^verbatim>\<open>{...v}\<close> copies: the entries of an object, the indexed elements of an array, the
  indexed characters of a string, and nothing for the other values.\<close>

fun own_props :: "jsval \<Rightarrow> (string \<times> jsval) list" where
  "own_props (VObj kvs) = kvs"
| "own_props (VArr xs) = zip (map show_nat [0..<length xs]) xs"
| "own_props (VStr s) = zip (map show_nat [0..<length s]) (map (\<lambda>c. VStr [c]) s)"
| "own_props v = []"

definition lookup :: "(string \<times> jsval) list \<Rightarrow> string \<Rightarrow> jsval" where
  "lookup kvs k = (case map_of kvs k of None \<Rightarrow> VUndefined | Some v \<Rightarrow> v)"

text \<open>
  \<^verbatim>\<open>v?.k\<close>: undefined on null and undefined, the property otherwise. Arrays and
  strings have their \<^verbatim>\<open>length\<close> (for a string the number of bytes, which are the
  characters of an ASCII string). Inherited members (the methods of the prototypes) are
  not data and are not modelled: no key that the source reads names one.
\<close>

fun opt_get :: "jsval \<Rightarrow> string \<Rightarrow> jsval" where
  "opt_get (VArr xs) k =
     (if k = ''length'' then VNum (of_nat (length xs)) else lookup (own_props (VArr xs)) k)"
| "opt_get (VStr s) k =
     (if k = ''length'' then VNum (of_nat (length s)) else lookup (own_props (VStr s)) k)"
| "opt_get v k = lookup (own_props v) k"

text \<open>\<^verbatim>\<open>v.k\<close>: a TypeError on null and undefined.\<close>

definition get_prop :: "jsval \<Rightarrow> string \<Rightarrow> thrown + jsval" where
  "get_prop v k = (if nullish v then Inl TypeError else Inr (opt_get v k))"

text \<open>\<^verbatim>\<open>o.k = v\<close> on the property list of an object: an existing key keeps its place,
  a new one goes last.\<close>

fun set_prop :: "(string \<times> jsval) list \<Rightarrow> string \<Rightarrow> jsval \<Rightarrow> (string \<times> jsval) list" where
  "set_prop [] k v = [(k, v)]"
| "set_prop ((k', v') # kvs) k v =
     (if k' = k then (k, v) # kvs else (k', v') # set_prop kvs k v)"

text \<open>The object literal \<^verbatim>\<open>{ ...fields, ...v }\<close>: the properties of \<open>v\<close> are written
  over the fields already there.\<close>

definition spread_over :: "(string \<times> jsval) list \<Rightarrow> jsval \<Rightarrow> (string \<times> jsval) list" where
  "spread_over fields v = fold (\<lambda>(k, x) acc. set_prop acc k x) (own_props v) fields"

section \<open>JSON text and the browser's local storage\<close>

text \<open>
  \<^verbatim>\<open>localStorage\<close> maps keys to strings. A stored string is kept up to what
  \<^verbatim>\<open>JSON.parse\<close> makes of it: the JSON value it denotes (an object with each key
  once, as \<^verbatim>\<open>JSON.stringify\<close> writes it), the empty string, or some other string that
  is not JSON text, such as \<^verbatim>\<open>{oops\<close> or \<^verbatim>\<open>undefined\<close>, on which \<^verbatim>\<open>JSON.parse\<close> throws a
  SyntaxError.
\<close>

datatype json =
    JNull
  | JBool bool
  | JNum rat
  | JStr string
  | JArr "json list"
  | JObj "(string \<times> json) list"

datatype stored_text = Serialized json | EmptyText | NotJson

type_synonym storage = "string \<Rightarrow> stored_text option"

primrec of_json :: "json \<Rightarrow> jsval" where
  "of_json JNull = VNull"
| "of_json (JBool b) = VBool b"
| "of_json (JNum n) = VNum n"
| "of_json (JStr s) = VStr s"
| "of_json (JArr xs) = VArr (map of_json xs)"
| "of_json (JObj kvs) = VObj (map (map_prod id of_json) kvs)"

text \<open>
  What \<^verbatim>\<open>JSON.stringify\<close> writes for a value: nothing for undefined (\<open>None\<close>), so a
  property whose value is undefined is left out, and an undefined array element is
  written \<^verbatim>\<open>null\<close>.
\<close>

primrec json_of :: "jsval \<Rightarrow> json option" where
  "json_of VUndefined = None"
| "json_of VNull = Some JNull"
| "json_of (VBool b) = Some (JBool b)"
| "json_of (VNum n) = Some (JNum n)"
| "json_of (VStr s) = Some (JStr s)"
| "json_of (VArr xs) =
     Some (JArr (map (\<lambda>j. case j of None \<Rightarrow> JNull | Some x \<Rightarrow> x) (map json_of xs)))"
| "json_of (VObj kvs) =
     Some (JObj (List.map_filter (\<lambda>(k, j). map_option (Pair k) j)
                   (map (map_prod id json_of) kvs)))"

definition JSON_parse :: "stored_text \<Rightarrow> thrown + jsval" where
  "JSON_parse t = (case t of Serialized j \<Rightarrow> Inr (of_json j) | _ \<Rightarrow> Inl SyntaxError)"

text \<open>\<^verbatim>\<open>JSON.stringify(v)\<close> as \<^verbatim>\<open>localStorage.setItem\<close> stores it: for undefined the
  result is undefined, which is stored as the string \<^verbatim>\<open>undefined\<close>, not JSON text.\<close>

definition JSON_stringify :: "jsval \<Rightarrow> stored_text" where
  "JSON_stringify v = (case json_of v of None \<Rightarrow> NotJson | Some j \<Rightarrow> Serialized j)"

text \<open>An array element as it is read back after \<^verbatim>\<open>JSON.stringify\<close> and
  \<^verbatim>\<open>JSON.parse\<close>.\<close>

definition json_roundtrip :: "jsval \<Rightarrow> jsval" where
  "json_roundtrip v = (case json_of v of None \<Rightarrow> VNull | Some j \<Rightarrow> of_json j)"

text \<open>A value that has nothing undefined inside: JSON text can hold it as it is.\<close>

definition plain :: "jsval \<Rightarrow> bool" where
  "plain v = (json_roundtrip v = v)"

section \<open>The pending item store\<close>

definition STORAGE_KEY :: string where
  "STORAGE_KEY = ''planit_pending_items''"

text \<open>\<^verbatim>\<open>stored ? JSON.parse(stored) : []\<close>, where \<open>stored\<close> is null for a missing key
  and the empty string is falsy too.\<close>

definition getPendingItems :: "storage \<Rightarrow> thrown + jsval" where
  "getPendingItems l =
     (case l STORAGE_KEY of
        None \<Rightarrow> Inr (VArr [])
      | Some EmptyText \<Rightarrow> Inr (VArr [])
      | Some t \<Rightarrow> JSON_parse t)"

text \<open>A method of arrays (\<^verbatim>\<open>push\<close>, \<^verbatim>\<open>splice\<close>, \<^verbatim>\<open>filter\<close>, \<^verbatim>\<open>map\<close>) called on a value:
  anything but an array has no such function, which is a TypeError.\<close>

definition as_array :: "jsval \<Rightarrow> thrown + jsval list" where
  "as_array v = (case v of VArr xs \<Rightarrow> Inr xs | _ \<Rightarrow> Inl TypeError)"

definition addPendingItem :: "storage \<Rightarrow> jsval \<Rightarrow> thrown + storage" where
  "addPendingItem l item =
     andThen (getPendingItems l) (\<lambda>items.
     andThen (as_array items) (\<lambda>xs.
     Inr (l(STORAGE_KEY \<mapsto> JSON_stringify (VArr (xs @ [item]))))))"

definition clearPendingItems :: "storage \<Rightarrow> storage" where
  "clearPendingItems l = l(STORAGE_KEY := None)"

text \<open>A run of \<^verbatim>\<open>addPendingItem\<close> calls, stopping at the first that throws.\<close>

fun add_all :: "storage \<Rightarrow> jsval list \<Rightarrow> thrown + storage" where
  "add_all l [] = Inr l"
| "add_all l (item # items) = andThen (addPendingItem l item) (\<lambda>l'. add_all l' items)"

text \<open>
  \<^verbatim>\<open>items.splice(index, 1)\<close> for an integer index: a negative start counts from the end
  and stops at 0, a start beyond the end is the length, and the number of elements
  deleted is 1 or what is left after the start, whichever is smaller.
\<close>

definition splice1 :: "'a list \<Rightarrow> int \<Rightarrow> 'a list" where
  "splice1 xs index =
     (let len = int (length xs);
          start = (if index < 0 then max (len + index) 0 else min index len);
          deleteCount = min (max 1 0) (len - start)
      in take (nat start) xs @ drop (nat (start + deleteCount)) xs)"

section \<open>The Search page: state, network and navigation\<close>

datatype SearchType = attractions | hotels

fun SearchType_str :: "SearchType \<Rightarrow> string" where
  "SearchType_str attractions = ''attractions''"
| "SearchType_str hotels = ''hotels''"

text \<open>
  The state variables of the component \<^verbatim>\<open>Search\<close> that the handlers below read or
  set, with their declared types; the variables of the add dialog (\<^verbatim>\<open>showAddModal\<close>,
  \<^verbatim>\<open>selectedItem\<close>, \<^verbatim>\<open>dayNumber\<close>, \<^verbatim>\<open>time\<close>, \<^verbatim>\<open>durationMinutes\<close>) are left out. A
  handler reads the values of the render it was created in and its setters take effect
  afterwards, so a handler is a function of the state it starts from.
\<close>

record state =
  searchType :: SearchType
  query :: string
  results :: "jsval list"
  attractionDetails :: jsval
  activitiesMap :: jsval
  expandedXid :: jsval
  loading :: bool
  error :: jsval
  successMessage :: string
  itineraries :: "jsval list"
  selectedItineraryId :: jsval
  adding :: bool
  checkIn :: string
  checkOut :: string
  pendingItems :: "jsval list"
  currentItinerary :: jsval

text \<open>
  The HTTP calls. The path \<^verbatim>\<open>/itineraries/${itineraryId}/save\<close> is kept as the endpoint
  with the value spliced into it, and the route \<^verbatim>\<open>/itineraries/${itineraryId}\<close> likewise.
  A call resolves with the body of the response (\<^verbatim>\<open>response.data\<close>) or rejects.
\<close>

datatype endpoint =
    Itineraries
  | ItinerariesCreateFromFlights
  | ItinerarySave jsval
  | SearchAttractions
  | SearchHotels

datatype request = Get endpoint jsval | Post endpoint jsval

type_synonym api = "request \<Rightarrow> thrown + jsval"

datatype route = ItineraryDetail jsval

text \<open>What one run of a handler leaves behind: the state, the local storage, the HTTP
  calls it issued in order, and the route it navigated to, if any.\<close>

record run =
  st :: state
  ls :: storage
  calls :: "request list"
  nav :: "route option"

definition CURRENT_KEY :: string where
  "CURRENT_KEY = ''planit_current_itinerary''"

definition SAVED_KEY :: string where
  "SAVED_KEY = ''planit_saved_data''"

text \<open>\<^verbatim>\<open>errorResponse.response?.data?.msg\<close> of a caught value.\<close>

definition error_msg :: "thrown \<Rightarrow> jsval" where
  "error_msg e =
     opt_get (opt_get (case e of AxiosError response \<Rightarrow> response | _ \<Rightarrow> VUndefined) ''data'')
       ''msg''"

text \<open>The elements of a value stored in a state variable declared as an array. The
  listing endpoint answers with an array; another body has no place in the declared type
  and is read as no elements.\<close>

definition elements :: "jsval \<Rightarrow> jsval list" where
  "elements v = (case v of VArr xs \<Rightarrow> xs | _ \<Rightarrow> [])"

definition loadItineraries :: "api \<Rightarrow> run \<Rightarrow> run" where
  "loadItineraries api r =
     (let r1 = r\<lparr>calls := calls r @ [Get Itineraries VUndefined]\<rparr> in
      case api (Get Itineraries VUndefined) of
        Inl err \<Rightarrow> r1
      | Inr data \<Rightarrow> r1\<lparr>st := (st r1)\<lparr>itineraries := elements (js_or data (VArr []))\<rparr>\<rparr>)"

section \<open>Search results\<close>

definition isHotelLike :: "jsval \<Rightarrow> bool" where
  "isHotelLike item =
     (if \<not> truthy item then False
      else truthy (js_or (js_or (js_or (js_or (opt_get item ''hotel_id'')
                                              (opt_get item ''hotel_key''))
                                       (opt_get item ''price_per_night''))
                                (opt_get item ''rating''))
                         (opt_get item ''address'')))"

definition normalizeAttraction :: "jsval \<Rightarrow> jsval" where
  "normalizeAttraction item =
     (if \<not> truthy item then item
      else
        let normalized = own_props item;
            normalized = set_prop normalized ''image_url''
              (js_or (js_or (js_or (js_or (opt_get item ''image_url'') (opt_get item ''image''))
                                   (opt_get item ''thumbnail''))
                            (opt_get item ''photo''))
                     VNull);
            normalized = set_prop normalized ''xid''
              (js_or (js_or (opt_get item ''xid'') (opt_get item ''id'')) (opt_get item ''xid''))
        in VObj normalized)"

definition normalizeHotel :: "jsval \<Rightarrow> jsval" where
  "normalizeHotel item =
     (if \<not> truthy item then item
      else
        let normalized = own_props item;
            normalized = set_prop normalized ''image''
              (js_or (js_or (js_or (js_or (opt_get item ''image'') (opt_get item ''thumbnail''))
                                   (opt_get item ''image_url''))
                            (opt_get item ''photo''))
                     VNull);
            normalized = set_prop normalized ''price_per_night''
              (js_or (js_or (js_or (opt_get item ''price_per_night'') (opt_get item ''price''))
                            (opt_get item ''nightly_price''))
                     VNull);
            normalized = set_prop normalized ''hotel_id''
              (js_or (js_or (js_or (opt_get item ''hotel_id'') (opt_get item ''id''))
                            (opt_get item ''hotel_key''))
                     VNull)
        in VObj normalized)"

text \<open>
  \<^verbatim>\<open>query.trim()\<close>. A \<open>string\<close> here is a list of bytes, text beyond ASCII being in
  UTF-8. \<^verbatim>\<open>String.prototype.trim\<close> strips the white space and the line terminators of
  the language from both ends: of one byte U+0009 to U+000D and U+0020; of two bytes
  U+00A0; of three bytes U+1680, U+2000 to U+200A, U+2028, U+2029, U+202F, U+205F, U+3000
  and U+FEFF.
\<close>

definition is_space :: "char \<Rightarrow> bool" where
  "is_space c = (c \<in> set [CHR 0x09, CHR 0x0A, CHR 0x0B, CHR 0x0C, CHR 0x0D, CHR 0x20])"

definition is_space2 :: "char \<Rightarrow> char \<Rightarrow> bool" where
  "is_space2 a b = (a = CHR 0xC2 \<and> b = CHR 0xA0)"

definition is_space3 :: "char \<Rightarrow> char \<Rightarrow> char \<Rightarrow> bool" where
  "is_space3 a b c =
     ((a = CHR 0xE1 \<and> b = CHR 0x9A \<and> c = CHR 0x80) \<or>
      (a = CHR 0xE2 \<and> b = CHR 0x80 \<and>
         c \<in> set [CHR 0x80, CHR 0x81, CHR 0x82, CHR 0x83, CHR 0x84, CHR 0x85, CHR 0x86,
                   CHR 0x87, CHR 0x88, CHR 0x89, CHR 0x8A, CHR 0xA8, CHR 0xA9, CHR 0xAF]) \<or>
      (a = CHR 0xE2 \<and> b = CHR 0x81 \<and> c = CHR 0x9F) \<or>
      (a = CHR 0xE3 \<and> b = CHR 0x80 \<and> c = CHR 0x80) \<or>
      (a = CHR 0xEF \<and> b = CHR 0xBB \<and> c = CHR 0xBF))"

text \<open>Dropping the white space at the front of a string, given what white space of
  one, two and three bytes is.\<close>

fun strip ::
  "(char \<Rightarrow> bool) \<Rightarrow> (char \<Rightarrow> char \<Rightarrow> bool) \<Rightarrow> (char \<Rightarrow> char \<Rightarrow> char \<Rightarrow> bool) \<Rightarrow>
   string \<Rightarrow> string" where
  "strip p1 p2 p3 (a # b # c # s) =
     (if p1 a then strip p1 p2 p3 (b # c # s)
      else if p2 a b then strip p1 p2 p3 (c # s)
      else if p3 a b c then strip p1 p2 p3 s
      else a # b # c # s)"
| "strip p1 p2 p3 [a, b] =
     (if p1 a then strip p1 p2 p3 [b] else if p2 a b then [] else [a, b])"
| "strip p1 p2 p3 [a] = (if p1 a then [] else [a])"
| "strip p1 p2 p3 [] = []"

definition trimStart :: "string \<Rightarrow> string" where
  "trimStart s = strip is_space is_space2 is_space3 s"

text \<open>At the end the bytes of a character are met in reverse.\<close>

definition trimEnd :: "string \<Rightarrow> string" where
  "trimEnd s =
     rev (strip is_space (\<lambda>b a. is_space2 a b) (\<lambda>c b a. is_space3 a b c) (rev s))"

definition trim :: "string \<Rightarrow> string" where
  "trim s = trimEnd (trimStart s)"

text \<open>The \<^verbatim>\<open>catch\<close> and \<^verbatim>\<open>finally\<close> blocks of \<^verbatim>\<open>handleSearch\<close>.\<close>

definition search_failed :: "thrown \<Rightarrow> run \<Rightarrow> run" where
  "search_failed err r = r\<lparr>st := (st r)\<lparr>error := js_or (error_msg err) (VStr ''Search failed'')\<rparr>\<rparr>"

definition search_finally :: "run \<Rightarrow> run" where
  "search_finally r = r\<lparr>st := (st r)\<lparr>loading := False\<rparr>\<rparr>"

text \<open>The branch of \<^verbatim>\<open>handleSearch\<close> for attractions, from the call on.\<close>

definition searchAttractions :: "api \<Rightarrow> state \<Rightarrow> run \<Rightarrow> run" where
  "searchAttractions api s r =
     (let req = Get SearchAttractions (VObj [(''location'', VStr (query s))]);
          r1 = r\<lparr>calls := calls r @ [req]\<rparr>
      in case api req of
           Inl err \<Rightarrow> search_failed err r1
         | Inr data \<Rightarrow>
             (case (if truthy data \<and> truthy (opt_get data ''attractions'')
                    then opt_get data ''attractions'' else VUndefined) of
                VArr raw \<Rightarrow>
                  let normalized = filter (\<lambda>it. \<not> isHotelLike it) (map normalizeAttraction raw);
                      r2 = r1\<lparr>st := (st r1)\<lparr>results := normalized, expandedXid := VNull,
                                 attractionDetails := VObj [], activitiesMap := VObj []\<rparr>\<rparr>
                  in if length normalized = 0 \<and> length raw > 0
                     then r2\<lparr>st := (st r2)\<lparr>error := VStr
                       ''Attractions endpoint returned results that appear to be hotels; none shown.''\<rparr>\<rparr>
                     else r2
              | _ \<Rightarrow>
                  r1\<lparr>st := (st r1)\<lparr>results := [],
                    error := VStr ''No attractions found (server returned unexpected data).''\<rparr>\<rparr>))"

text \<open>The branch for hotels.\<close>

definition searchHotels :: "api \<Rightarrow> state \<Rightarrow> run \<Rightarrow> run" where
  "searchHotels api s r =
     (if checkIn s = [] \<or> checkOut s = []
      then r\<lparr>st := (st r)\<lparr>error := VStr ''Check-in and check-out dates are required'',
                             loading := False\<rparr>\<rparr>
      else
        let req = Get SearchHotels (VObj [(''location'', VStr (query s)),
                    (''check_in'', VStr (checkIn s)), (''check_out'', VStr (checkOut s))]);
            r1 = r\<lparr>calls := calls r @ [req]\<rparr>
        in case api req of
             Inl err \<Rightarrow> search_failed err r1
           | Inr data \<Rightarrow>
               (case andThen (get_prop data ''hotels'')
                       (\<lambda>hs. as_array (js_or hs (VArr []))) of
                  Inl err \<Rightarrow> search_failed err r1
                | Inr rawHotels \<Rightarrow> r1\<lparr>st := (st r1)\<lparr>results := map normalizeHotel rawHotels\<rparr>\<rparr>))"

text \<open>\<^verbatim>\<open>handleSearch(forceType)\<close>; \<open>forceType\<close> is whatever the caller passes, undefined
  when it passes nothing.\<close>

definition handleSearch :: "api \<Rightarrow> jsval \<Rightarrow> state \<Rightarrow> storage \<Rightarrow> run" where
  "handleSearch api forceType s l =
     (let activeType = js_or forceType (VStr (SearchType_str (searchType s)));
          r0 = \<lparr>st = s, ls = l, calls = [], nav = None\<rparr>
      in if trim (query s) = [] then r0
         else
           let r1 = r0\<lparr>st := s\<lparr>loading := True, error := VStr [], successMessage := []\<rparr>\<rparr>
           in search_finally
                (if activeType = VStr ''attractions'' then searchAttractions api s r1
                 else if activeType = VStr ''hotels'' then searchHotels api s r1
                 else r1))"

section \<open>Saving the pending items into an itinerary\<close>

text \<open>The two callbacks of \<^verbatim>\<open>pendingItems.filter\<close>.\<close>

definition is_flight :: "jsval \<Rightarrow> thrown + bool" where
  "is_flight item = andThen (get_prop item ''type'') (\<lambda>t. Inr (t = VStr ''flight''))"

definition not_flight :: "jsval \<Rightarrow> thrown + bool" where
  "not_flight item = andThen (get_prop item ''type'') (\<lambda>t. Inr (t \<noteq> VStr ''flight''))"

text \<open>The callback that projects an item that is not a flight. Reading \<^verbatim>\<open>item.data.name\<close>
  throws when \<^verbatim>\<open>item.data\<close> is null or undefined; after it, the other reads cannot.\<close>

definition project_item :: "jsval \<Rightarrow> thrown + jsval" where
  "project_item item =
     andThen (get_prop item ''data'') (\<lambda>d.
     andThen (get_prop d ''name'') (\<lambda>name.
     Inr (VObj [(''name'', js_or name (opt_get d ''title'')),
                (''price'', js_or (js_or (opt_get d ''price'') (opt_get d ''price_per_night''))
                                  (VNum 0)),
                (''type'', opt_get item ''type'')])))"

text \<open>The body \<^verbatim>\<open>{ flights, items }\<close> of the save request.\<close>

definition save_payload :: "jsval list \<Rightarrow> thrown + jsval" where
  "save_payload pending =
     andThen (filterM is_flight pending) (\<lambda>fs.
     andThen (mapM (\<lambda>item. get_prop item ''data'') fs) (\<lambda>flights.
     andThen (filterM not_flight pending) (\<lambda>others.
     andThen (mapM project_item others) (\<lambda>items.
     Inr (VObj [(''flights'', VArr flights), (''items'', VArr items)])))))"

text \<open>\<^verbatim>\<open>stored ? JSON.parse(stored) : null\<close> for the draft itinerary.\<close>

definition read_current_itinerary :: "storage \<Rightarrow> thrown + jsval" where
  "read_current_itinerary l =
     (case l CURRENT_KEY of
        None \<Rightarrow> Inr VNull
      | Some EmptyText \<Rightarrow> Inr VNull
      | Some t \<Rightarrow> JSON_parse t)"

text \<open>The creation request: from the dates of the stored itinerary when it has both,
  an empty itinerary otherwise.\<close>

definition create_request :: "jsval \<Rightarrow> request" where
  "create_request storedItinerary =
     (if truthy storedItinerary \<and> truthy (opt_get storedItinerary ''departure_date'')
         \<and> truthy (opt_get storedItinerary ''return_date'')
      then Post ItinerariesCreateFromFlights
             (VObj [(''departure_date'', opt_get storedItinerary ''departure_date''),
                    (''return_date'', opt_get storedItinerary ''return_date''),
                    (''title'', js_or (opt_get storedItinerary ''title'') VUndefined)])
      else Post Itineraries (VObj []))"

text \<open>The body of the inner \<^verbatim>\<open>try\<close>: create the itinerary, note it as the current one,
  reload the list. A thrown value comes with the run up to the throw.\<close>

definition createItinerary ::
  "api \<Rightarrow> state \<Rightarrow> jsval \<Rightarrow> run \<Rightarrow> (thrown \<times> run) + (jsval \<times> run)" where
  "createItinerary api s storedItinerary r =
     (let req = create_request storedItinerary;
          r1 = r\<lparr>calls := calls r @ [req]\<rparr>
      in case api req of
           Inl err \<Rightarrow> Inl (err, r1)
         | Inr data \<Rightarrow>
             (case get_prop data ''itinerary_id'' of
                Inl err \<Rightarrow> Inl (err, r1)
              | Inr itineraryId \<Rightarrow>
                  let title = js_or (opt_get storedItinerary ''title'')
                        (VStr (''Itinerary '' @ show_nat (length (itineraries s) + 1)));
                      current = VObj [(''itinerary_id'', itineraryId),
                        (''title'', title),
                        (''origin'', opt_get storedItinerary ''origin''),
                        (''destination'', opt_get storedItinerary ''destination''),
                        (''departure_date'', opt_get storedItinerary ''departure_date''),
                        (''return_date'', opt_get storedItinerary ''return_date'')];
                      r2 = r1\<lparr>ls := (ls r1)(CURRENT_KEY \<mapsto> JSON_stringify current),
                              st := (st r1)\<lparr>currentItinerary := current,
                                             selectedItineraryId := itineraryId\<rparr>\<rparr>
                  in Inr (itineraryId, loadItineraries api r2)))"

text \<open>The itinerary to save into: the selected one, or a new one. \<open>None\<close> is the
  \<^verbatim>\<open>return\<close> of the inner \<^verbatim>\<open>catch\<close>.\<close>

definition resolveTarget ::
  "api \<Rightarrow> state \<Rightarrow> run \<Rightarrow> (thrown \<times> run) + (jsval option \<times> run)" where
  "resolveTarget api s r =
     (if truthy (selectedItineraryId s) then Inr (Some (selectedItineraryId s), r)
      else
        case read_current_itinerary (ls r) of
          Inl err \<Rightarrow> Inl (err, r)
        | Inr storedItinerary \<Rightarrow>
            (case createItinerary api s storedItinerary r of
               Inl (createErr, r') \<Rightarrow>
                 Inr (None, r'\<lparr>st := (st r')\<lparr>
                   error := js_or (error_msg createErr) (VStr ''Failed to create itinerary''),
                   adding := False\<rparr>\<rparr>)
             | Inr (itineraryId, r') \<Rightarrow> Inr (Some itineraryId, r')))"

text \<open>From the payload to the navigation.\<close>

definition saveItems :: "api \<Rightarrow> state \<Rightarrow> jsval \<Rightarrow> run \<Rightarrow> (thrown \<times> run) + run" where
  "saveItems api s itineraryId r =
     (case save_payload (pendingItems s) of
        Inl err \<Rightarrow> Inl (err, r)
      | Inr body \<Rightarrow>
          (let req = Post (ItinerarySave itineraryId) body;
               r1 = r\<lparr>calls := calls r @ [req]\<rparr>
           in (case api req of
                 Inl err \<Rightarrow> Inl (err, r1)
               | Inr data \<Rightarrow>
                   (let l1 = (ls r1)(SAVED_KEY \<mapsto> JSON_stringify
                               (VObj (spread_over [(''itinerary_id'', itineraryId)] data)));
                        l2 = clearPendingItems l1;
                        l3 = l2(CURRENT_KEY := None)
                    in Inr (r1\<lparr>ls := l3,
                               st := (st r1)\<lparr>pendingItems := [], currentItinerary := VNull,
                                              successMessage := ''All items saved to itinerary!''\<rparr>,
                               nav := Some (ItineraryDetail itineraryId)\<rparr>)))))"

text \<open>The outer \<^verbatim>\<open>catch\<close> and \<^verbatim>\<open>finally\<close>.\<close>

definition save_failed :: "thrown \<Rightarrow> run \<Rightarrow> run" where
  "save_failed err r =
     r\<lparr>st := (st r)\<lparr>error := js_or (error_msg err) (VStr ''Failed to save items'')\<rparr>\<rparr>"

definition save_finally :: "run \<Rightarrow> run" where
  "save_finally r = r\<lparr>st := (st r)\<lparr>adding := False\<rparr>\<rparr>"

definition handleSaveAllToItinerary :: "api \<Rightarrow> state \<Rightarrow> storage \<Rightarrow> run" where
  "handleSaveAllToItinerary api s l =
     (let r0 = \<lparr>st = s, ls = l, calls = [], nav = None\<rparr>
      in if length (pendingItems s) = 0
         then r0\<lparr>st := s\<lparr>error := VStr ''No pending items to save''\<rparr>\<rparr>
         else
           let r1 = r0\<lparr>st := s\<lparr>adding := True, error := VStr []\<rparr>\<rparr>
           in save_finally
                (case resolveTarget api s r1 of
                   Inl (err, r2) \<Rightarrow> save_failed err r2
                 | Inr (None, r2) \<Rightarrow> r2
                 | Inr (Some itineraryId, r2) \<Rightarrow>
                     (case saveItems api s itineraryId r2 of
                        Inl (err, r3) \<Rightarrow> save_failed err r3
                      | Inr r3 \<Rightarrow> r3)))"

text \<open>\<^verbatim>\<open>removePendingItem(index)\<close> for an integer index: it reads the store, not the
  state, and writes both.\<close>

definition removePendingItem :: "int \<Rightarrow> state \<Rightarrow> storage \<Rightarrow> thrown + (state \<times> storage)" where
  "removePendingItem index s l =
     andThen (getPendingItems l) (\<lambda>items.
     andThen (as_array items) (\<lambda>xs.
       let ys = splice1 xs index
       in Inr (s\<lparr>pendingItems := ys\<rparr>, l(STORAGE_KEY \<mapsto> JSON_stringify (VArr ys)))))"

text \<open>An item of the pending list that the callbacks above can read without throwing:
  it is not null or undefined, and neither is its \<^verbatim>\<open>data\<close> unless it is a flight.\<close>

definition readable :: "jsval \<Rightarrow> bool" where
  "readable item =
     (\<not> nullish item \<and>
      (opt_get item ''type'' = VStr ''flight'' \<or> \<not> nullish (opt_get item ''data'')))"

text \<open>The price that the specification describes for a projected item: the nightly
  price first, then the generic price, then zero.\<close>

definition spec_price :: "jsval \<Rightarrow> jsval" where
  "spec_price d =
     js_or (js_or (opt_get d ''price_per_night'') (opt_get d ''price'')) (VNum 0)"

text \<open>What \<^verbatim>\<open>getPendingItems\<close> returns after a call of \<^verbatim>\<open>removePendingItem\<close>.\<close>

definition list_after :: "thrown + (state \<times> storage) \<Rightarrow> thrown + jsval" where
  "list_after r = (case r of Inl e \<Rightarrow> Inl e | Inr (s, l) \<Rightarrow> getPendingItems l)"

text \<open>The state of the component when it is mounted (the arguments of its
  \<^verbatim>\<open>useState\<close> calls), and an empty local storage.\<close>

definition initial_state :: state where
  "initial_state =
     \<lparr>searchType = attractions, query = [], results = [], attractionDetails = VObj [],
      activitiesMap = VObj [], expandedXid = VNull, loading = False, error = VStr [],
      successMessage = [], itineraries = [], selectedItineraryId = VNull, adding = False,
      checkIn = [], checkOut = [], pendingItems = [], currentItinerary = VNull\<rparr>"

definition empty_storage :: storage where
  "empty_storage = (\<lambda>k. None)"

text \<open>The state's copy of the pending items agrees with the store: every handler of the
  page that writes the one writes the other.\<close>

definition in_step :: "state \<Rightarrow> storage \<Rightarrow> bool" where
  "in_step s l = (getPendingItems l = Inr (VArr (pendingItems s)))"

section \<open>Example servers and an example page\<close>

text \<open>A server that accepts every call: a creation answers with the itinerary 7, a save
  with a confirmation, the listing with no itinerary.\<close>

definition server_ok :: api where
  "server_ok req =
     (case req of
        Get ep params \<Rightarrow> Inr (VArr [])
      | Post ep body \<Rightarrow>
          (case ep of
             ItinerarySave tid \<Rightarrow> Inr (VObj [(''saved'', VBool True)])
           | _ \<Rightarrow> Inr (VObj [(''itinerary_id'', VNum 7)])))"

text \<open>A server that rejects the save with a message, and accepts the rest.\<close>

definition server_rejects_save :: api where
  "server_rejects_save req =
     (case req of
        Post (ItinerarySave tid) body \<Rightarrow>
          Inl (AxiosError (VObj [(''data'', VObj [(''msg'', VStr ''Itinerary not found'')])]))
      | _ \<Rightarrow> server_ok req)"

text \<open>A search server: for Paris a museum and an inn (with a hotel id and a nightly
  price), for any other place the inn alone.\<close>

definition search_server :: api where
  "search_server req =
     (if req = Get SearchAttractions (VObj [(''location'', VStr ''Paris'')])
      then Inr (VObj [(''attractions'', VArr
             [VObj [(''name'', VStr ''Museum''), (''id'', VStr ''m1'')],
              VObj [(''name'', VStr ''Inn''), (''hotel_id'', VStr ''h1''),
                    (''price_per_night'', VNum 80)]])])
      else Inr (VObj [(''attractions'', VArr
             [VObj [(''name'', VStr ''Inn''), (''hotel_id'', VStr ''h1''),
                    (''price_per_night'', VNum 80)]])]))"

text \<open>A page with one pending hotel, in the state and in the store, no itinerary
  selected, and a draft itinerary with both dates.\<close>

definition page_state :: state where
  "page_state = initial_state\<lparr>pendingItems :=
     [VObj [(''type'', VStr ''hotel''),
            (''data'', VObj [(''name'', VStr ''Hotel A''), (''price_per_night'', VNum 120)]),
            (''addedAt'', VStr ''2025-01-01T00:00:00.000Z'')]]\<rparr>"

definition page_storage :: storage where
  "page_storage = empty_storage
     (STORAGE_KEY \<mapsto> Serialized (JArr
        [JObj [(''type'', JStr ''hotel''),
               (''data'', JObj [(''name'', JStr ''Hotel A''), (''price_per_night'', JNum 120)]),
               (''addedAt'', JStr ''2025-01-01T00:00:00.000Z'')]]),
      CURRENT_KEY \<mapsto> Serialized (JObj
        [(''title'', JStr ''Rome''), (''departure_date'', JStr ''2025-03-01''),
         (''return_date'', JStr ''2025-03-08'')]))"

section \<open>Facts about JSON text\<close>

lemma obj_roundtrip:
  "(\<And>k v. (k, v) \<in> set kvs \<Longrightarrow> f v = Some v) \<Longrightarrow>
   List.map_filter (\<lambda>(k, j). map_option (Pair k) j) (map (\<lambda>(k, v). (k, f v)) kvs) = kvs"
proof (induction kvs)
  case Nil
  then show ?case by (simp add:)
next
  case (Cons kv kvs)
  obtain k v where kv: "kv = (k, v)" by (cases kv)
  have "f v = Some v" using Cons.prems [of k v] kv by simp
  moreover have "List.map_filter (\<lambda>(k, j). map_option (Pair k) j)
                   (map (\<lambda>(k, v). (k, f v)) kvs) = kvs"
    by (rule Cons.IH) (use Cons.prems in auto)
  ultimately show ?case using kv by (simp add:)
qed

lemma json_of_of_json: "json_of (of_json j) = Some j"
proof (induction j)
  case (JArr xs)
  then show ?case by (simp add: map_idI)
next
  case (JObj kvs)
  have "\<And>k v. (k, v) \<in> set kvs \<Longrightarrow> (json_of \<circ> of_json) v = Some v"
    using JObj by fastforce
  from obj_roundtrip [of kvs "json_of \<circ> of_json", OF this]
  show ?case by (simp add: map_prod_def split_def comp_def)
qed simp_all

lemma json_roundtrip_of_json: "json_roundtrip (of_json j) = of_json j"
  by (simp add: json_roundtrip_def json_of_of_json)

lemma parse_stringify_array:
  "JSON_parse (JSON_stringify (VArr xs)) = Inr (VArr (map json_roundtrip xs))"
proof -
  have "\<And>v. of_json (case json_of v of None \<Rightarrow> JNull | Some x \<Rightarrow> x) = json_roundtrip v"
    by (simp add: json_roundtrip_def split: option.splits)
  then show ?thesis
    by (simp add: JSON_stringify_def JSON_parse_def comp_def)
qed

section \<open>Facts about the pending item store\<close>

lemma getPendingItems_plain:
  assumes "getPendingItems l = Inr (VArr xs)"
  shows "map json_roundtrip xs = xs"
proof -
  have "\<And>j. of_json j = VArr xs \<Longrightarrow> map json_roundtrip xs = xs"
  proof -
    fix j assume "of_json j = VArr xs"
    then obtain js where "xs = map of_json js" by (cases j) auto
    then show "map json_roundtrip xs = xs" by (simp add: json_roundtrip_of_json)
  qed
  then show ?thesis
    using assms
    by (auto simp: getPendingItems_def JSON_parse_def split: option.splits stored_text.splits)
qed

lemma getPendingItems_after_set:
  "getPendingItems (l(STORAGE_KEY \<mapsto> JSON_stringify (VArr xs))) =
     Inr (VArr (map json_roundtrip xs))"
  using parse_stringify_array [of xs]
  by (simp add: getPendingItems_def JSON_stringify_def split: stored_text.splits)

lemma addPendingItem_list:
  assumes "getPendingItems l = Inr (VArr xs)"
  shows "\<exists>l'. addPendingItem l item = Inr l' \<and>
            getPendingItems l' = Inr (VArr (xs @ [json_roundtrip item]))"
  using assms getPendingItems_plain [OF assms]
  by (simp add: addPendingItem_def andThen_def as_array_def getPendingItems_after_set)

lemma add_all_list:
  "getPendingItems l = Inr (VArr xs) \<Longrightarrow>
   \<exists>l'. add_all l items = Inr l' \<and>
         getPendingItems l' = Inr (VArr (xs @ map json_roundtrip items))"
proof (induction items arbitrary: l xs)
  case Nil
  then show ?case by simp
next
  case (Cons item items)
  from addPendingItem_list [OF Cons.prems, of item] obtain l1 where
    a: "addPendingItem l item = Inr l1" and
    g: "getPendingItems l1 = Inr (VArr (xs @ [json_roundtrip item]))" by blast
  from Cons.IH [OF g] show ?case using a by (simp add: andThen_def)
qed

lemma plain_items: "list_all plain items \<Longrightarrow> map json_roundtrip items = items"
  by (induction items) (simp_all add: plain_def)

lemma splice1_beyond: "int (length xs) \<le> i \<Longrightarrow> splice1 xs i = xs"
  by (simp add: splice1_def Let_def min_def)

lemma splice1_negative:
  "i < 0 \<Longrightarrow> splice1 xs i =
     take (nat (max (int (length xs) + i) 0)) xs @
     drop (Suc (nat (max (int (length xs) + i) 0))) xs"
proof (cases "xs = []")
  case True
  then show ?thesis by (simp add: splice1_def)
next
  case False
  assume "i < 0"
  with False have "min 1 (int (length xs) - max (int (length xs) + i) 0) = 1"
    by (cases xs) (auto simp: min_def max_def)
  moreover have "nat (max (int (length xs) + i) 0 + 1) = Suc (nat (max (int (length xs) + i) 0))"
    by (simp add: max_def nat_add_distrib)
  ultimately show ?thesis using \<open>i < 0\<close> by (simp add: splice1_def Let_def)
qed

lemma removePendingItem_list:
  assumes "getPendingItems l = Inr (VArr xs)"
  shows "removePendingItem i s l =
           Inr (s\<lparr>pendingItems := splice1 xs i\<rparr>,
                l(STORAGE_KEY \<mapsto> JSON_stringify (VArr (splice1 xs i))))"
  using assms by (simp add: removePendingItem_def andThen_def as_array_def Let_def)

lemma splice1_plain:
  assumes "map json_roundtrip xs = xs"
  shows "map json_roundtrip (splice1 xs i) = splice1 xs i"
proof -
  have "\<And>a b. map json_roundtrip (take a xs @ drop b xs) = take a xs @ drop b xs"
    using assms by (metis drop_map map_append take_map)
  then show ?thesis by (simp add: splice1_def Let_def)
qed

section \<open>The pending item store: the claims\<close>

text \<open>
  C6. Any run of \<^verbatim>\<open>addPendingItem\<close> calls on a store whose record lists \<open>xs\<close> succeeds,
  and \<^verbatim>\<open>getPendingItems\<close> then returns \<open>xs\<close> followed by the added items in the order of
  the calls, one entry for each call, so an item added twice is there twice. An entry is
  the item as JSON text holds it (a property whose value is undefined is not written);
  an item with nothing undefined inside comes back as it was added.
\<close>

theorem add_all_then_list:
  assumes "getPendingItems l = Inr (VArr xs)"
  shows "\<exists>l'. add_all l items = Inr l' \<and>
           getPendingItems l' = Inr (VArr (xs @ map json_roundtrip items)) \<and>
           (list_all plain items \<longrightarrow> getPendingItems l' = Inr (VArr (xs @ items)))"
  using add_all_list [OF assms, of items] plain_items [of items] by auto

theorem add_all_then_list_witness:
  "getPendingItems empty_storage = Inr (VArr []) \<and>
   list_all plain [VObj [(''type'', VStr ''hotel''), (''data'', VObj [(''name'', VStr ''Hotel A'')])],
                   VObj [(''type'', VStr ''hotel''), (''data'', VObj [(''name'', VStr ''Hotel A'')])]] \<and>
   (\<exists>l'. add_all empty_storage
            [VObj [(''type'', VStr ''hotel''), (''data'', VObj [(''name'', VStr ''Hotel A'')])],
             VObj [(''type'', VStr ''hotel''), (''data'', VObj [(''name'', VStr ''Hotel A'')])]]
          = Inr l' \<and>
          getPendingItems l' = Inr (VArr
            [VObj [(''type'', VStr ''hotel''), (''data'', VObj [(''name'', VStr ''Hotel A'')])],
             VObj [(''type'', VStr ''hotel''), (''data'', VObj [(''name'', VStr ''Hotel A'')])]]))"
proof -
  have h: "getPendingItems empty_storage = Inr (VArr [])"
    by (simp add: getPendingItems_def empty_storage_def)
  have p: "list_all plain
     [VObj [(''type'', VStr ''hotel''), (''data'', VObj [(''name'', VStr ''Hotel A'')])],
      VObj [(''type'', VStr ''hotel''), (''data'', VObj [(''name'', VStr ''Hotel A'')])]]"
    by (simp add: plain_def json_roundtrip_def)
  show ?thesis
    using h p add_all_then_list [OF h,
      of "[VObj [(''type'', VStr ''hotel''), (''data'', VObj [(''name'', VStr ''Hotel A'')])],
           VObj [(''type'', VStr ''hotel''), (''data'', VObj [(''name'', VStr ''Hotel A'')])]]"]
    by auto
qed

text \<open>
  C7, as the claim states it, fails: \<^verbatim>\<open>splice\<close> counts a negative index from the end, so
  \<^verbatim>\<open>removePendingItem(-1)\<close> on a store of two entries removes the last one.
\<close>

theorem removePendingItem_negative_counterexample:
  "getPendingItems (empty_storage(STORAGE_KEY \<mapsto> Serialized (JArr
      [JObj [(''type'', JStr ''hotel''), (''data'', JObj [(''name'', JStr ''Hotel A'')])],
       JObj [(''type'', JStr ''attraction''), (''data'', JObj [(''name'', JStr ''Museum'')])]])))
     = Inr (VArr
      [VObj [(''type'', VStr ''hotel''), (''data'', VObj [(''name'', VStr ''Hotel A'')])],
       VObj [(''type'', VStr ''attraction''), (''data'', VObj [(''name'', VStr ''Museum'')])]])
   \<and> list_after (removePendingItem (- 1) initial_state
       (empty_storage(STORAGE_KEY \<mapsto> Serialized (JArr
      [JObj [(''type'', JStr ''hotel''), (''data'', JObj [(''name'', JStr ''Hotel A'')])],
       JObj [(''type'', JStr ''attraction''), (''data'', JObj [(''name'', JStr ''Museum'')])]]))))
     = Inr (VArr
      [VObj [(''type'', VStr ''hotel''), (''data'', VObj [(''name'', VStr ''Hotel A'')])]])"
  by (simp add: list_after_def removePendingItem_def getPendingItems_def JSON_parse_def
      JSON_stringify_def andThen_def as_array_def splice1_def empty_storage_def
     )

text \<open>
  C7, amended. On a store whose record lists \<open>xs\<close>, \<^verbatim>\<open>removePendingItem(i)\<close> does not
  throw; for \<open>i\<close> at or beyond the length the listed sequence and the state's copy are
  \<open>xs\<close> as before; for negative \<open>i\<close> the entry at position \<open>max (length + i) 0\<close> is
  removed and the others keep their order.
\<close>

theorem removePendingItem_out_of_range:
  assumes "getPendingItems l = Inr (VArr xs)"
  shows "(int (length xs) \<le> i \<longrightarrow>
            (\<exists>s' l'. removePendingItem i s l = Inr (s', l') \<and>
               getPendingItems l' = Inr (VArr xs) \<and> pendingItems s' = xs)) \<and>
         (i < 0 \<longrightarrow>
            (\<exists>s' l'. removePendingItem i s l = Inr (s', l') \<and>
               getPendingItems l' =
                 Inr (VArr (take (nat (max (int (length xs) + i) 0)) xs @
                            drop (Suc (nat (max (int (length xs) + i) 0))) xs))))"
proof -
  have "getPendingItems (l(STORAGE_KEY \<mapsto> JSON_stringify (VArr (splice1 xs i)))) =
          Inr (VArr (splice1 xs i))"
    using splice1_plain [OF getPendingItems_plain [OF assms], of i]
    by (simp add: getPendingItems_after_set)
  then show ?thesis
    using removePendingItem_list [OF assms, of i s] splice1_beyond [of xs i]
      splice1_negative [of i xs]
    by auto
qed

theorem removePendingItem_out_of_range_witness:
  "getPendingItems (empty_storage(STORAGE_KEY \<mapsto> Serialized (JArr [JStr ''a'', JStr ''b''])))
     = Inr (VArr [VStr ''a'', VStr ''b'']) \<and>
   (\<exists>s' l'. removePendingItem 2 initial_state
               (empty_storage(STORAGE_KEY \<mapsto> Serialized (JArr [JStr ''a'', JStr ''b'']))) = Inr (s', l') \<and>
            getPendingItems l' = Inr (VArr [VStr ''a'', VStr ''b'']) \<and>
            pendingItems s' = [VStr ''a'', VStr ''b'']) \<and>
   (\<exists>s' l'. removePendingItem (- 2) initial_state
               (empty_storage(STORAGE_KEY \<mapsto> Serialized (JArr [JStr ''a'', JStr ''b'']))) = Inr (s', l') \<and>
            getPendingItems l' = Inr (VArr [VStr ''b'']))"
proof -
  have h: "getPendingItems (empty_storage(STORAGE_KEY \<mapsto> Serialized (JArr [JStr ''a'', JStr ''b''])))
     = Inr (VArr [VStr ''a'', VStr ''b''])"
    by (simp add: getPendingItems_def JSON_parse_def)
  show ?thesis
    using h removePendingItem_out_of_range [OF h, of 2 initial_state]
      removePendingItem_out_of_range [OF h, of "- 2" initial_state]
    by simp
qed

text \<open>
  C8, as the claim states it, fails: on a record that is not JSON text
  \<^verbatim>\<open>JSON.parse\<close> throws, and \<^verbatim>\<open>getPendingItems\<close> has no handler for it.
\<close>

theorem getPendingItems_corrupt_counterexample:
  "getPendingItems (empty_storage(STORAGE_KEY \<mapsto> NotJson)) = Inl SyntaxError \<and>
   getPendingItems (empty_storage(STORAGE_KEY \<mapsto> NotJson)) \<noteq> Inr (VArr [])"
  by (simp add: getPendingItems_def JSON_parse_def)

text \<open>
  C8, amended. \<^verbatim>\<open>getPendingItems\<close> returns the empty sequence when the record is
  missing or is the empty string, returns the parsed value when the record is JSON text,
  and throws a SyntaxError on any other record.
\<close>

theorem getPendingItems_by_record:
  "(l STORAGE_KEY = None \<or> l STORAGE_KEY = Some EmptyText \<longrightarrow> getPendingItems l = Inr (VArr [])) \<and>
   (\<forall>j. l STORAGE_KEY = Some (Serialized j) \<longrightarrow> getPendingItems l = Inr (of_json j)) \<and>
   (l STORAGE_KEY = Some NotJson \<longrightarrow> getPendingItems l = Inl SyntaxError)"
  by (auto simp: getPendingItems_def JSON_parse_def)

theorem getPendingItems_by_record_witness:
  "getPendingItems empty_storage = Inr (VArr []) \<and>
   getPendingItems (empty_storage(STORAGE_KEY \<mapsto> EmptyText)) = Inr (VArr []) \<and>
   getPendingItems (empty_storage(STORAGE_KEY \<mapsto> Serialized (JArr [JStr ''a'']))) = Inr (VArr [VStr ''a'']) \<and>
   getPendingItems (empty_storage(STORAGE_KEY \<mapsto> NotJson)) = Inl SyntaxError"
  using getPendingItems_by_record [of empty_storage]
    getPendingItems_by_record [of "empty_storage(STORAGE_KEY \<mapsto> EmptyText)"]
    getPendingItems_by_record [of "empty_storage(STORAGE_KEY \<mapsto> Serialized (JArr [JStr ''a'']))"]
    getPendingItems_by_record [of "empty_storage(STORAGE_KEY \<mapsto> NotJson)"]
  by (simp add: empty_storage_def)

section \<open>Facts about the save payload\<close>

lemma filterM_total:
  "(\<And>x. x \<in> set xs \<Longrightarrow> p x = Inr (q x)) \<Longrightarrow> filterM p xs = Inr (filter q xs)"
  by (induction xs) (simp_all add: andThen_def)

lemma mapM_total:
  "(\<And>x. x \<in> set xs \<Longrightarrow> f x = Inr (g x)) \<Longrightarrow> mapM f xs = Inr (map g xs)"
  by (induction xs) (simp_all add: andThen_def)

lemma is_flight_readable:
  "readable item \<Longrightarrow> is_flight item = Inr (opt_get item ''type'' = VStr ''flight'')"
  by (simp add: is_flight_def readable_def get_prop_def andThen_def)

lemma not_flight_readable:
  "readable item \<Longrightarrow> not_flight item = Inr (opt_get item ''type'' \<noteq> VStr ''flight'')"
  by (simp add: not_flight_def readable_def get_prop_def andThen_def)

lemma data_readable: "readable item \<Longrightarrow> get_prop item ''data'' = Inr (opt_get item ''data'')"
  by (simp add: readable_def get_prop_def)

lemma project_item_readable:
  "readable item \<Longrightarrow> opt_get item ''type'' \<noteq> VStr ''flight'' \<Longrightarrow>
   project_item item =
     Inr (VObj [(''name'', js_or (opt_get (opt_get item ''data'') ''name'')
                                 (opt_get (opt_get item ''data'') ''title'')),
                (''price'', js_or (js_or (opt_get (opt_get item ''data'') ''price'')
                                         (opt_get (opt_get item ''data'') ''price_per_night''))
                                  (VNum 0)),
                (''type'', opt_get item ''type'')])"
  by (simp add: project_item_def readable_def get_prop_def andThen_def)

lemma save_payload_readable:
  assumes "list_all readable pending"
  shows "save_payload pending =
     Inr (VObj
       [(''flights'', VArr (map (\<lambda>item. opt_get item ''data'')
           (filter (\<lambda>item. opt_get item ''type'' = VStr ''flight'') pending))),
        (''items'', VArr (map (\<lambda>item.
            VObj [(''name'', js_or (opt_get (opt_get item ''data'') ''name'')
                                   (opt_get (opt_get item ''data'') ''title'')),
                  (''price'', js_or (js_or (opt_get (opt_get item ''data'') ''price'')
                                           (opt_get (opt_get item ''data'') ''price_per_night''))
                                    (VNum 0)),
                  (''type'', opt_get item ''type'')])
           (filter (\<lambda>item. opt_get item ''type'' \<noteq> VStr ''flight'') pending)))])"
proof -
  have r: "\<And>x. x \<in> set pending \<Longrightarrow> readable x"
    using assms by (simp add: list_all_iff)
  have f1: "filterM is_flight pending =
      Inr (filter (\<lambda>item. opt_get item ''type'' = VStr ''flight'') pending)"
    by (rule filterM_total) (simp add: is_flight_readable r)
  have f2: "filterM not_flight pending =
      Inr (filter (\<lambda>item. opt_get item ''type'' \<noteq> VStr ''flight'') pending)"
    by (rule filterM_total) (simp add: not_flight_readable r)
  have m1: "mapM (\<lambda>item. get_prop item ''data'')
        (filter (\<lambda>item. opt_get item ''type'' = VStr ''flight'') pending) =
      Inr (map (\<lambda>item. opt_get item ''data'')
        (filter (\<lambda>item. opt_get item ''type'' = VStr ''flight'') pending))"
    by (rule mapM_total) (simp add: data_readable r)
  have m2: "mapM project_item (filter (\<lambda>item. opt_get item ''type'' \<noteq> VStr ''flight'') pending) =
      Inr (map (\<lambda>item.
            VObj [(''name'', js_or (opt_get (opt_get item ''data'') ''name'')
                                   (opt_get (opt_get item ''data'') ''title'')),
                  (''price'', js_or (js_or (opt_get (opt_get item ''data'') ''price'')
                                           (opt_get (opt_get item ''data'') ''price_per_night''))
                                    (VNum 0)),
                  (''type'', opt_get item ''type'')])
        (filter (\<lambda>item. opt_get item ''type'' \<noteq> VStr ''flight'') pending))"
    by (rule mapM_total) (simp add: project_item_readable r)
  show ?thesis
    by (simp add: save_payload_def f1 f2 m1 m2 andThen_def)
qed

section \<open>The save payload: the claims\<close>

text \<open>
  C3, as the claim states it, fails on the order of the price fields: for a hotel with
  a generic price of 50 and a nightly price of 120 the payload carries 50, where the
  order "nightly price, then generic price" gives 120.
\<close>

theorem save_payload_price_order_counterexample:
  "save_payload
     [VObj [(''type'', VStr ''hotel''),
            (''data'', VObj [(''name'', VStr ''Hotel A''), (''price'', VNum 50),
                             (''price_per_night'', VNum 120)]),
            (''addedAt'', VStr ''2025-01-01T00:00:00.000Z'')]]
   = Inr (VObj [(''flights'', VArr []),
               (''items'', VArr [VObj [(''name'', VStr ''Hotel A''), (''price'', VNum 50),
                                       (''type'', VStr ''hotel'')]])])
   \<and> spec_price (VObj [(''name'', VStr ''Hotel A''), (''price'', VNum 50),
                       (''price_per_night'', VNum 120)]) = VNum 120
   \<and> save_payload
     [VObj [(''type'', VStr ''hotel''),
            (''data'', VObj [(''name'', VStr ''Hotel A''), (''price'', VNum 50),
                             (''price_per_night'', VNum 120)]),
            (''addedAt'', VStr ''2025-01-01T00:00:00.000Z'')]]
   \<noteq> Inr (VObj [(''flights'', VArr []),
               (''items'', VArr [VObj [(''name'', VStr ''Hotel A''),
                  (''price'', spec_price (VObj [(''name'', VStr ''Hotel A''),
                                 (''price'', VNum 50), (''price_per_night'', VNum 120)])),
                  (''type'', VStr ''hotel'')]])])"
  by (simp add: save_payload_def is_flight_def not_flight_def project_item_def get_prop_def
      andThen_def js_or_def lookup_def spec_price_def)

text \<open>
  C3, amended. For every list of pending items that can be read, the payload has the
  \<^verbatim>\<open>data\<close> of the items of type flight, in order, as \<^verbatim>\<open>flights\<close>, and for every other
  item, in order, the record of \<^verbatim>\<open>name\<close>, \<^verbatim>\<open>price\<close> and \<^verbatim>\<open>type\<close> as \<^verbatim>\<open>items\<close>, where the
  name is \<^verbatim>\<open>data.name\<close> or else \<^verbatim>\<open>data.title\<close> and the price is \<^verbatim>\<open>data.price\<close> or else
  \<^verbatim>\<open>data.price_per_night\<close> or else 0 (the generic price comes first). For the hotel
  "Hotel A" with a nightly price of 120 followed by one flight, \<^verbatim>\<open>items\<close> is the one
  record of name "Hotel A", price 120 and type hotel, and \<^verbatim>\<open>flights\<close> is the one flight
  record.
\<close>

theorem save_payload_partition:
  "(list_all readable pending \<longrightarrow>
     save_payload pending =
       Inr (VObj
         [(''flights'', VArr (map (\<lambda>item. opt_get item ''data'')
             (filter (\<lambda>item. opt_get item ''type'' = VStr ''flight'') pending))),
          (''items'', VArr (map (\<lambda>item.
              VObj [(''name'', js_or (opt_get (opt_get item ''data'') ''name'')
                                     (opt_get (opt_get item ''data'') ''title'')),
                    (''price'', js_or (js_or (opt_get (opt_get item ''data'') ''price'')
                                             (opt_get (opt_get item ''data'') ''price_per_night''))
                                      (VNum 0)),
                    (''type'', opt_get item ''type'')])
             (filter (\<lambda>item. opt_get item ''type'' \<noteq> VStr ''flight'') pending)))]))
   \<and> save_payload
       [VObj [(''type'', VStr ''hotel''),
              (''data'', VObj [(''name'', VStr ''Hotel A''), (''price_per_night'', VNum 120)])],
        VObj [(''type'', VStr ''flight''), (''data'', flight)]]
     = Inr (VObj [(''flights'', VArr [flight]),
                 (''items'', VArr [VObj [(''name'', VStr ''Hotel A''), (''price'', VNum 120),
                                         (''type'', VStr ''hotel'')]])])"
proof -
  have "save_payload
       [VObj [(''type'', VStr ''hotel''),
              (''data'', VObj [(''name'', VStr ''Hotel A''), (''price_per_night'', VNum 120)])],
        VObj [(''type'', VStr ''flight''), (''data'', flight)]]
     = Inr (VObj [(''flights'', VArr [flight]),
                 (''items'', VArr [VObj [(''name'', VStr ''Hotel A''), (''price'', VNum 120),
                                         (''type'', VStr ''hotel'')]])])"
    by (simp add: save_payload_def is_flight_def not_flight_def project_item_def get_prop_def
        andThen_def js_or_def lookup_def)
  then show ?thesis
    using save_payload_readable [of pending] by blast
qed

theorem save_payload_partition_witness:
  "list_all readable
     [VObj [(''type'', VStr ''attraction''), (''data'', VObj [(''title'', VStr ''Museum'')])],
      VObj [(''type'', VStr ''flight''), (''data'', VObj [(''airline'', VStr ''XY'')])]]
   \<and> save_payload
     [VObj [(''type'', VStr ''attraction''), (''data'', VObj [(''title'', VStr ''Museum'')])],
      VObj [(''type'', VStr ''flight''), (''data'', VObj [(''airline'', VStr ''XY'')])]]
   = Inr (VObj [(''flights'', VArr [VObj [(''airline'', VStr ''XY'')]]),
               (''items'', VArr [VObj [(''name'', VStr ''Museum''), (''price'', VNum 0),
                                       (''type'', VStr ''attraction'')]])])"
proof -
  have h: "list_all readable
     [VObj [(''type'', VStr ''attraction''), (''data'', VObj [(''title'', VStr ''Museum'')])],
      VObj [(''type'', VStr ''flight''), (''data'', VObj [(''airline'', VStr ''XY'')])]]"
    by (simp add: readable_def lookup_def)
  show ?thesis
    using h save_payload_partition
      [of "[VObj [(''type'', VStr ''attraction''), (''data'', VObj [(''title'', VStr ''Museum'')])],
            VObj [(''type'', VStr ''flight''), (''data'', VObj [(''airline'', VStr ''XY'')])]]"]
    by (simp add: js_or_def lookup_def)
qed

text \<open>
  C10. The fallbacks of the projection test the value, not the presence of the field:
  an item that is not a flight, with a price of 0 and a nightly price \<open>P > 0\<close>, is
  projected with price \<open>P\<close>, and one whose name is the empty string is projected with
  its title as name.
\<close>

theorem project_item_falsy_fallback:
  assumes "readable item" and "opt_get item ''type'' \<noteq> VStr ''flight''"
  shows "(opt_get (opt_get item ''data'') ''price'' = VNum 0 \<and>
          opt_get (opt_get item ''data'') ''price_per_night'' = VNum P \<and> 0 < P \<longrightarrow>
            (\<exists>name. project_item item =
               Inr (VObj [(''name'', name), (''price'', VNum P),
                          (''type'', opt_get item ''type'')]))) \<and>
         (opt_get (opt_get item ''data'') ''name'' = VStr [] \<longrightarrow>
            (\<exists>price. project_item item =
               Inr (VObj [(''name'', opt_get (opt_get item ''data'') ''title''),
                          (''price'', price), (''type'', opt_get item ''type'')])))"
  using project_item_readable [OF assms] by (auto simp: js_or_def)

theorem project_item_falsy_fallback_witness:
  "readable (VObj [(''type'', VStr ''hotel''),
                   (''data'', VObj [(''name'', VStr []), (''title'', VStr ''Inn''),
                                    (''price'', VNum 0), (''price_per_night'', VNum 80)])])
   \<and> project_item (VObj [(''type'', VStr ''hotel''),
                   (''data'', VObj [(''name'', VStr []), (''title'', VStr ''Inn''),
                                    (''price'', VNum 0), (''price_per_night'', VNum 80)])])
     = Inr (VObj [(''name'', VStr ''Inn''), (''price'', VNum 80), (''type'', VStr ''hotel'')])"
proof -
  have h: "readable (VObj [(''type'', VStr ''hotel''),
                   (''data'', VObj [(''name'', VStr []), (''title'', VStr ''Inn''),
                                    (''price'', VNum 0), (''price_per_night'', VNum 80)])])"
    by (simp add: readable_def lookup_def)
  have t: "opt_get (VObj [(''type'', VStr ''hotel''),
                   (''data'', VObj [(''name'', VStr []), (''title'', VStr ''Inn''),
                                    (''price'', VNum 0), (''price_per_night'', VNum 80)])]) ''type''
           \<noteq> VStr ''flight''"
    by (simp add: lookup_def)
  show ?thesis
    using h project_item_falsy_fallback [OF h t, of 80]
    by (auto simp: lookup_def)
qed

section \<open>Facts about the steps of the save handler\<close>

lemma keys_distinct:
  "STORAGE_KEY \<noteq> CURRENT_KEY" "STORAGE_KEY \<noteq> SAVED_KEY" "CURRENT_KEY \<noteq> SAVED_KEY"
  "CURRENT_KEY \<noteq> STORAGE_KEY" "SAVED_KEY \<noteq> STORAGE_KEY" "SAVED_KEY \<noteq> CURRENT_KEY"
  by (simp_all add: STORAGE_KEY_def CURRENT_KEY_def SAVED_KEY_def)

lemma loadItineraries_keeps:
  "ls (loadItineraries api r) = ls r"
  "nav (loadItineraries api r) = nav r"
  "calls (loadItineraries api r) = calls r @ [Get Itineraries VUndefined]"
  "pendingItems (st (loadItineraries api r)) = pendingItems (st r)"
  "selectedItineraryId (st (loadItineraries api r)) = selectedItineraryId (st r)"
  by (simp_all add: loadItineraries_def Let_def split: sum.splits)

lemma create_request_is_post:
  "create_request d = Post Itineraries (VObj []) \<or>
   (\<exists>b. create_request d = Post ItinerariesCreateFromFlights b)"
  by (simp add: create_request_def)

lemma createItinerary_Inl:
  "createItinerary api s d r = Inl (e, r') \<Longrightarrow>
     r' = r\<lparr>calls := calls r @ [create_request d]\<rparr>
     \<and> (api (create_request d) = Inl e \<or> (\<exists>b. api (create_request d) = Inr b \<and> nullish b))"
  by (auto simp: createItinerary_def Let_def get_prop_def split: sum.splits if_splits)

lemma createItinerary_Inr:
  "createItinerary api s d r = Inr (tid, r') \<Longrightarrow>
     (\<exists>b. api (create_request d) = Inr b \<and> get_prop b ''itinerary_id'' = Inr tid)
     \<and> calls r' = calls r @ [create_request d, Get Itineraries VUndefined]
     \<and> nav r' = nav r
     \<and> pendingItems (st r') = pendingItems (st r)
     \<and> selectedItineraryId (st r') = tid
     \<and> (\<exists>t. ls r' = (ls r)(CURRENT_KEY \<mapsto> t))"
  by (auto simp: createItinerary_def Let_def loadItineraries_keeps split: sum.splits if_splits)

lemma resolveTarget_selected:
  "truthy (selectedItineraryId s) \<Longrightarrow>
     resolveTarget api s r = Inr (Some (selectedItineraryId s), r)"
  by (simp add: resolveTarget_def)

lemma resolveTarget_Inl:
  "resolveTarget api s r = Inl (e, r') \<Longrightarrow> r' = r"
  by (auto simp: resolveTarget_def split: if_splits sum.splits prod.splits)

lemma resolveTarget_None:
  assumes "resolveTarget api s r = Inr (None, r')"
  shows "ls r' = ls r \<and> nav r' = nav r \<and> pendingItems (st r') = pendingItems (st r) \<and>
         (\<exists>d. read_current_itinerary (ls r) = Inr d \<and> calls r' = calls r @ [create_request d])"
proof -
  from assms obtain d e r2 where
    d: "read_current_itinerary (ls r) = Inr d" and
    c: "createItinerary api s d r = Inl (e, r2)" and
    r': "r' = r2\<lparr>st := (st r2)\<lparr>error := js_or (error_msg e) (VStr ''Failed to create itinerary''),
                                  adding := False\<rparr>\<rparr>"
    by (auto simp: resolveTarget_def split: if_splits sum.splits prod.splits)
  from createItinerary_Inl [OF c] have "r2 = r\<lparr>calls := calls r @ [create_request d]\<rparr>" by simp
  with d r' show ?thesis by simp
qed

lemma resolveTarget_Some:
  assumes "resolveTarget api s r = Inr (Some tid, r')"
  shows "nav r' = nav r \<and> pendingItems (st r') = pendingItems (st r) \<and>
         ((truthy (selectedItineraryId s) \<and> tid = selectedItineraryId s \<and> r' = r) \<or>
          (\<not> truthy (selectedItineraryId s) \<and>
           (\<exists>d b. read_current_itinerary (ls r) = Inr d \<and>
                  api (create_request d) = Inr b \<and> get_prop b ''itinerary_id'' = Inr tid \<and>
                  calls r' = calls r @ [create_request d, Get Itineraries VUndefined] \<and>
                  (\<exists>t. ls r' = (ls r)(CURRENT_KEY \<mapsto> t)) \<and>
                  selectedItineraryId (st r') = tid)))"
proof (cases "truthy (selectedItineraryId s)")
  case True
  with assms show ?thesis by (simp add: resolveTarget_def)
next
  case False
  with assms obtain d where
    d: "read_current_itinerary (ls r) = Inr d" and
    c: "createItinerary api s d r = Inr (tid, r')"
    by (auto simp: resolveTarget_def split: if_splits sum.splits prod.splits)
  from createItinerary_Inr [OF c] d False show ?thesis by auto
qed

lemma resolveTarget_create:
  assumes "\<not> truthy (selectedItineraryId s)" and "read_current_itinerary (ls r) = Inr d"
  shows "\<exists>x r'. resolveTarget api s r = Inr (x, r') \<and>
           (\<exists>rest. calls r' = calls r @ create_request d # rest)"
proof (cases "createItinerary api s d r")
  case (Inl a)
  obtain e r2 where a: "a = (e, r2)" by (cases a)
  from createItinerary_Inl [of api s d r e r2] Inl a
  have "calls r2 = calls r @ [create_request d]" by simp
  with Inl a assms show ?thesis by (simp add: resolveTarget_def)
next
  case (Inr b)
  obtain tid r2 where b: "b = (tid, r2)" by (cases b)
  from createItinerary_Inr [of api s d r tid r2] Inr b
  have "calls r2 = calls r @ [create_request d, Get Itineraries VUndefined]" by simp
  with Inr b assms show ?thesis by (simp add: resolveTarget_def)
qed

lemma saveItems_Inl:
  "saveItems api s tid r = Inl (e, r') \<Longrightarrow>
     ls r' = ls r \<and> nav r' = nav r \<and> st r' = st r \<and>
     (calls r' = calls r \<or>
      (\<exists>body. calls r' = calls r @ [Post (ItinerarySave tid) body] \<and>
              api (Post (ItinerarySave tid) body) = Inl e))"
  by (auto simp: saveItems_def Let_def split: sum.splits)

lemma saveItems_Inr:
  "saveItems api s tid r = Inr r' \<Longrightarrow>
     \<exists>body data. save_payload (pendingItems s) = Inr body \<and>
       api (Post (ItinerarySave tid) body) = Inr data \<and>
       calls r' = calls r @ [Post (ItinerarySave tid) body] \<and>
       ls r' = (ls r)(SAVED_KEY \<mapsto>
                  JSON_stringify (VObj (spread_over [(''itinerary_id'', tid)] data)),
                STORAGE_KEY := None, CURRENT_KEY := None) \<and>
       nav r' = Some (ItineraryDetail tid) \<and>
       pendingItems (st r') = [] \<and> currentItinerary (st r') = VNull"
  by (auto simp: saveItems_def Let_def clearPendingItems_def split: sum.splits)

lemma save_finally_keeps:
  "ls (save_finally r) = ls r" "nav (save_finally r) = nav r" "calls (save_finally r) = calls r"
  "pendingItems (st (save_finally r)) = pendingItems (st r)"
  "currentItinerary (st (save_finally r)) = currentItinerary (st r)"
  "selectedItineraryId (st (save_finally r)) = selectedItineraryId (st r)"
  "error (st (save_finally r)) = error (st r)"
  by (simp_all add: save_finally_def)

lemma save_failed_keeps:
  "ls (save_failed e r) = ls r" "nav (save_failed e r) = nav r"
  "calls (save_failed e r) = calls r"
  "pendingItems (st (save_failed e r)) = pendingItems (st r)"
  "selectedItineraryId (st (save_failed e r)) = selectedItineraryId (st r)"
  by (simp_all add: save_failed_def)

text \<open>The three ways a run of the handler with pending items ends.\<close>

lemma handleSaveAll_outcomes:
  fixes api :: api and s :: state and l :: storage
  assumes "pendingItems s \<noteq> []"
  defines "R \<equiv> handleSaveAllToItinerary api s l"
  shows
   "(nav R = None \<and> pendingItems (st R) = pendingItems s \<and>
       (\<forall>k. k \<noteq> CURRENT_KEY \<longrightarrow> ls R k = l k) \<and>
       (l CURRENT_KEY \<noteq> None \<longrightarrow> ls R CURRENT_KEY \<noteq> None) \<and>
       (\<forall>tid body. Post (ItinerarySave tid) body \<in> set (calls R) \<longrightarrow>
            isl (api (Post (ItinerarySave tid) body))))
    \<or>
    (\<exists>tid body data pre.
       save_payload (pendingItems s) = Inr body \<and>
       api (Post (ItinerarySave tid) body) = Inr data \<and>
       calls R = pre @ [Post (ItinerarySave tid) body] \<and>
       (pre = [] \<or> (\<exists>d b. pre = [create_request d, Get Itineraries VUndefined] \<and>
                           api (create_request d) = Inr b)) \<and>
       ls R SAVED_KEY =
         Some (JSON_stringify (VObj (spread_over [(''itinerary_id'', tid)] data))) \<and>
       ls R STORAGE_KEY = None \<and> ls R CURRENT_KEY = None \<and>
       nav R = Some (ItineraryDetail tid) \<and>
       pendingItems (st R) = [] \<and> currentItinerary (st R) = VNull)"
proof -
  define r1 where "r1 = \<lparr>st = s\<lparr>adding := True, error := VStr []\<rparr>, ls = l, calls = [], nav = None\<rparr>"
  have R: "R = save_finally
                (case resolveTarget api s r1 of
                   Inl (err, r2) \<Rightarrow> save_failed err r2
                 | Inr (None, r2) \<Rightarrow> r2
                 | Inr (Some itineraryId, r2) \<Rightarrow>
                     (case saveItems api s itineraryId r2 of
                        Inl (err, r3) \<Rightarrow> save_failed err r3
                      | Inr r3 \<Rightarrow> r3))"
    using assms(1) by (simp add: R_def handleSaveAllToItinerary_def r1_def)
  have r1: "ls r1 = l" "calls r1 = []" "nav r1 = None" "pendingItems (st r1) = pendingItems s"
    by (simp_all add: r1_def)
  show ?thesis
  proof (cases "resolveTarget api s r1")
    case (Inl a)
    obtain e r2 where a: "a = (e, r2)" by (cases a)
    from resolveTarget_Inl [of api s r1 e r2] Inl a have "r2 = r1" by simp
    with R Inl a r1 show ?thesis
      by (simp add: save_finally_keeps save_failed_keeps)
  next
    case (Inr b)
    obtain x r2 where b: "b = (x, r2)" by (cases b)
    show ?thesis
    proof (cases x)
      case None
      from resolveTarget_None [of api s r1 r2] Inr b None
      obtain d where "ls r2 = l" "nav r2 = None" "pendingItems (st r2) = pendingItems s"
        "calls r2 = [create_request d]"
        using r1 by auto
      moreover have "\<And>tid body. Post (ItinerarySave tid) body \<noteq> create_request d"
        using create_request_is_post [of d] by auto
      ultimately show ?thesis
        using R Inr b None by (auto simp: save_finally_keeps)
    next
      case (Some tid)
      from resolveTarget_Some [of api s r1 tid r2] Inr b Some
      have t: "nav r2 = None" "pendingItems (st r2) = pendingItems s"
        and alt: "(calls r2 = [] \<and> ls r2 = l) \<or>
             (\<exists>d b. api (create_request d) = Inr b \<and>
                calls r2 = [create_request d, Get Itineraries VUndefined] \<and>
                (\<exists>t. ls r2 = l(CURRENT_KEY \<mapsto> t)))"
        using r1 by auto
      have nosave: "\<And>t' body. Post (ItinerarySave t') body \<notin> set (calls r2)"
      proof -
        fix t' body
        have "\<And>d. Post (ItinerarySave t') body \<noteq> create_request d"
          using create_request_is_post by (metis endpoint.distinct(4) endpoint.distinct(10) request.inject(2))
        then show "Post (ItinerarySave t') body \<notin> set (calls r2)"
          using alt by auto
      qed
      show ?thesis
      proof (cases "saveItems api s tid r2")
        case (Inl c)
        obtain e r3 where c: "c = (e, r3)" by (cases c)
        from saveItems_Inl [of api s tid r2 e r3] Inl c
        have k: "ls r3 = ls r2" "nav r3 = nav r2" "st r3 = st r2"
          and cs: "calls r3 = calls r2 \<or>
            (\<exists>body. calls r3 = calls r2 @ [Post (ItinerarySave tid) body] \<and>
                    api (Post (ItinerarySave tid) body) = Inl e)"
          by auto
        have RR: "R = save_finally (save_failed e r3)"
          using R Inr b Some Inl c by simp
        have "\<forall>t' body. Post (ItinerarySave t') body \<in> set (calls r3) \<longrightarrow>
            isl (api (Post (ItinerarySave t') body))"
          using cs nosave by auto
        moreover have "\<forall>k. k \<noteq> CURRENT_KEY \<longrightarrow> ls r3 k = l k"
          using alt k by auto
        moreover have "l CURRENT_KEY \<noteq> None \<longrightarrow> ls r3 CURRENT_KEY \<noteq> None"
          using alt k by auto
        ultimately have ?thesis
          using RR t k by (simp add: save_finally_keeps save_failed_keeps)
        then show ?thesis .
      next
        case (Inr r3)
        from saveItems_Inr [OF Inr] obtain body data where
          p: "save_payload (pendingItems s) = Inr body" and
          a: "api (Post (ItinerarySave tid) body) = Inr data" and
          cs: "calls r3 = calls r2 @ [Post (ItinerarySave tid) body]" and
          l3: "ls r3 = (ls r2)(SAVED_KEY \<mapsto>
                  JSON_stringify (VObj (spread_over [(''itinerary_id'', tid)] data)),
                STORAGE_KEY := None, CURRENT_KEY := None)" and
          n: "nav r3 = Some (ItineraryDetail tid)" and
          s3: "pendingItems (st r3) = []" "currentItinerary (st r3) = VNull"
          by blast
        have RR: "R = save_finally r3"
          using R \<open>resolveTarget api s r1 = Inr b\<close> b Some Inr by simp
        have pre: "calls r2 = [] \<or> (\<exists>d b. calls r2 = [create_request d, Get Itineraries VUndefined] \<and>
                           api (create_request d) = Inr b)"
          using alt by auto
        have "ls r3 SAVED_KEY =
            Some (JSON_stringify (VObj (spread_over [(''itinerary_id'', tid)] data)))"
          "ls r3 STORAGE_KEY = None" "ls r3 CURRENT_KEY = None"
          using l3 by (simp_all add: keys_distinct)
        then have ?thesis
          using RR p a cs n s3 pre by (auto simp: save_finally_keeps)
        then show ?thesis .
      qed
    qed
  qed
qed

lemma getPendingItems_same_record:
  "l' STORAGE_KEY = l STORAGE_KEY \<Longrightarrow> getPendingItems l' = getPendingItems l"
  by (simp add: getPendingItems_def)

lemma handleSaveAll_empty:
  "pendingItems s = [] \<Longrightarrow>
     handleSaveAllToItinerary api s l =
       \<lparr>st = s\<lparr>error := VStr ''No pending items to save''\<rparr>, ls = l, calls = [], nav = None\<rparr>"
  by (simp add: handleSaveAllToItinerary_def)

text \<open>The handlers keep the state's copy of the pending items in step with the store.\<close>

lemma removePendingItem_in_step:
  assumes "getPendingItems l = Inr (VArr xs)" and "removePendingItem i s l = Inr (s', l')"
  shows "in_step s' l'"
proof -
  have "getPendingItems (l(STORAGE_KEY \<mapsto> JSON_stringify (VArr (splice1 xs i)))) =
          Inr (VArr (splice1 xs i))"
    using splice1_plain [OF getPendingItems_plain [OF assms(1)], of i]
    by (simp add: getPendingItems_after_set)
  then show ?thesis
    using removePendingItem_list [OF assms(1), of i s] assms(2) by (auto simp: in_step_def)
qed

lemma handleSaveAll_in_step:
  assumes "in_step s l"
  shows "in_step (st (handleSaveAllToItinerary api s l)) (ls (handleSaveAllToItinerary api s l))"
proof (cases "pendingItems s = []")
  case True
  with assms show ?thesis by (simp add: handleSaveAll_empty in_step_def)
next
  case False
  define R where "R = handleSaveAllToItinerary api s l"
  from handleSaveAll_outcomes [OF False, of api l, folded R_def]
  have "in_step (st R) (ls R)"
  proof
    assume f: "nav R = None \<and> pendingItems (st R) = pendingItems s \<and>
       (\<forall>k. k \<noteq> CURRENT_KEY \<longrightarrow> ls R k = l k) \<and>
       (l CURRENT_KEY \<noteq> None \<longrightarrow> ls R CURRENT_KEY \<noteq> None) \<and>
       (\<forall>tid body. Post (ItinerarySave tid) body \<in> set (calls R) \<longrightarrow>
            isl (api (Post (ItinerarySave tid) body)))"
    then have "ls R STORAGE_KEY = l STORAGE_KEY" by (simp add: keys_distinct)
    then have "getPendingItems (ls R) = getPendingItems l"
      by (rule getPendingItems_same_record)
    with f assms show ?thesis by (simp add: in_step_def)
  next
    assume "\<exists>tid body data pre.
       save_payload (pendingItems s) = Inr body \<and>
       api (Post (ItinerarySave tid) body) = Inr data \<and>
       calls R = pre @ [Post (ItinerarySave tid) body] \<and>
       (pre = [] \<or> (\<exists>d b. pre = [create_request d, Get Itineraries VUndefined] \<and>
                           api (create_request d) = Inr b)) \<and>
       ls R SAVED_KEY =
         Some (JSON_stringify (VObj (spread_over [(''itinerary_id'', tid)] data))) \<and>
       ls R STORAGE_KEY = None \<and> ls R CURRENT_KEY = None \<and>
       nav R = Some (ItineraryDetail tid) \<and>
       pendingItems (st R) = [] \<and> currentItinerary (st R) = VNull"
    then have "ls R STORAGE_KEY = None" "pendingItems (st R) = []" by blast+
    then show ?thesis by (simp add: in_step_def getPendingItems_def)
  qed
  then show ?thesis by (simp add: R_def)
qed

lemmas run_defs = handleSaveAllToItinerary_def resolveTarget_def createItinerary_def
  saveItems_def loadItineraries_def save_failed_def save_finally_def create_request_def
  read_current_itinerary_def save_payload_def is_flight_def not_flight_def project_item_def
  get_prop_def andThen_def js_or_def lookup_def JSON_parse_def JSON_stringify_def
  clearPendingItems_def spread_over_def error_msg_def elements_def getPendingItems_def
  initial_state_def empty_storage_def STORAGE_KEY_def CURRENT_KEY_def SAVED_KEY_def Let_def

section \<open>The save handler: the claims\<close>

text \<open>
  C5, as the claim states it, fails: the handler does not read the store but the page's
  copy of it. With an empty store and a copy that still holds a hotel (the record was
  removed from outside the page), \<^verbatim>\<open>handleSaveAllToItinerary\<close> creates an itinerary,
  reloads the list and saves the hotel.
\<close>

theorem save_with_empty_store_counterexample:
  "getPendingItems empty_storage = Inr (VArr []) \<and>
   calls (handleSaveAllToItinerary server_ok page_state empty_storage) =
     [Post Itineraries (VObj []),
      Get Itineraries VUndefined,
      Post (ItinerarySave (VNum 7))
        (VObj [(''flights'', VArr []),
               (''items'', VArr [VObj [(''name'', VStr ''Hotel A''), (''price'', VNum 120),
                                       (''type'', VStr ''hotel'')]])])] \<and>
   error (st (handleSaveAllToItinerary server_ok page_state empty_storage)) = VStr [] \<and>
   nav (handleSaveAllToItinerary server_ok page_state empty_storage) =
     Some (ItineraryDetail (VNum 7))"
  by (simp add: run_defs page_state_def server_ok_def)

text \<open>
  C5, amended. When the page's copy \<^verbatim>\<open>pendingItems\<close> of the store is empty, which is what
  the handler tests, and so in particular when the store is empty and the copy is in
  step with it, \<^verbatim>\<open>handleSaveAllToItinerary\<close> sets the error "No pending items to save"
  and does nothing else: no HTTP call, the storage and the rest of the state as they
  were, no navigation.
\<close>

theorem save_with_empty_copy:
  assumes "pendingItems s = [] \<or> (in_step s l \<and> getPendingItems l = Inr (VArr []))"
  shows "calls (handleSaveAllToItinerary api s l) = [] \<and>
         error (st (handleSaveAllToItinerary api s l)) = VStr ''No pending items to save'' \<and>
         handleSaveAllToItinerary api s l =
           \<lparr>st = s\<lparr>error := VStr ''No pending items to save''\<rparr>, ls = l, calls = [], nav = None\<rparr>"
proof -
  from assms have "pendingItems s = []"
    by (auto simp: in_step_def)
  then show ?thesis by (simp add: handleSaveAll_empty)
qed

theorem save_with_empty_copy_witness:
  "pendingItems initial_state = [] \<and>
   in_step initial_state empty_storage \<and>
   getPendingItems empty_storage = Inr (VArr []) \<and>
   calls (handleSaveAllToItinerary server_ok initial_state empty_storage) = [] \<and>
   error (st (handleSaveAllToItinerary server_ok initial_state empty_storage)) =
     VStr ''No pending items to save''"
proof -
  have h: "pendingItems initial_state = []" by (simp add: initial_state_def)
  have g: "getPendingItems empty_storage = Inr (VArr [])"
    by (simp add: getPendingItems_def empty_storage_def)
  have i: "in_step initial_state empty_storage"
    using g h by (simp add: in_step_def)
  have a: "pendingItems initial_state = [] \<or>
           (in_step initial_state empty_storage \<and> getPendingItems empty_storage = Inr (VArr []))"
    using h by simp
  show ?thesis
    using h i g save_with_empty_copy [OF a, of server_ok] by simp
qed

text \<open>
  C1. When a creation call or the save call of a run of \<^verbatim>\<open>handleSaveAllToItinerary\<close> is
  rejected, the record of the pending items is the one from before the run, so
  \<^verbatim>\<open>getPendingItems\<close> returns what it returned before, the page's copy of the list is
  unchanged, no key of the local storage is removed, and the page does not navigate.
\<close>

theorem save_failure_keeps_staged_state:
  assumes "\<exists>ep body. Post ep body \<in> set (calls (handleSaveAllToItinerary api s l)) \<and>
                     isl (api (Post ep body))"
  shows "ls (handleSaveAllToItinerary api s l) STORAGE_KEY = l STORAGE_KEY \<and>
         getPendingItems (ls (handleSaveAllToItinerary api s l)) = getPendingItems l \<and>
         pendingItems (st (handleSaveAllToItinerary api s l)) = pendingItems s \<and>
         (\<forall>k. l k \<noteq> None \<longrightarrow> ls (handleSaveAllToItinerary api s l) k \<noteq> None) \<and>
         nav (handleSaveAllToItinerary api s l) = None"
proof (cases "pendingItems s = []")
  case True
  with assms show ?thesis by (simp add: handleSaveAll_empty)
next
  case False
  define R where "R = handleSaveAllToItinerary api s l"
  from assms obtain ep body where
    c: "Post ep body \<in> set (calls R)" and f: "isl (api (Post ep body))"
    unfolding R_def by blast
  from handleSaveAll_outcomes [OF False, of api l, folded R_def]
  have "ls R STORAGE_KEY = l STORAGE_KEY \<and> getPendingItems (ls R) = getPendingItems l \<and>
        pendingItems (st R) = pendingItems s \<and> (\<forall>k. l k \<noteq> None \<longrightarrow> ls R k \<noteq> None) \<and>
        nav R = None"
  proof
    assume o: "nav R = None \<and> pendingItems (st R) = pendingItems s \<and>
       (\<forall>k. k \<noteq> CURRENT_KEY \<longrightarrow> ls R k = l k) \<and>
       (l CURRENT_KEY \<noteq> None \<longrightarrow> ls R CURRENT_KEY \<noteq> None) \<and>
       (\<forall>tid body. Post (ItinerarySave tid) body \<in> set (calls R) \<longrightarrow>
            isl (api (Post (ItinerarySave tid) body)))"
    then have k: "\<And>k. k \<noteq> CURRENT_KEY \<Longrightarrow> ls R k = l k"
      and cur: "l CURRENT_KEY \<noteq> None \<Longrightarrow> ls R CURRENT_KEY \<noteq> None"
      by simp_all
    have 1: "ls R STORAGE_KEY = l STORAGE_KEY" by (rule k) (rule keys_distinct)
    have 2: "getPendingItems (ls R) = getPendingItems l"
      using 1 by (rule getPendingItems_same_record)
    have 3: "\<forall>k. l k \<noteq> None \<longrightarrow> ls R k \<noteq> None"
    proof (intro allI impI)
      fix k assume "l k \<noteq> None"
      then show "ls R k \<noteq> None"
        using k [of k] cur by (cases "k = CURRENT_KEY") simp_all
    qed
    from o 1 2 3 show ?thesis by simp
  next
    assume "\<exists>tid body data pre.
       save_payload (pendingItems s) = Inr body \<and>
       api (Post (ItinerarySave tid) body) = Inr data \<and>
       calls R = pre @ [Post (ItinerarySave tid) body] \<and>
       (pre = [] \<or> (\<exists>d b. pre = [create_request d, Get Itineraries VUndefined] \<and>
                           api (create_request d) = Inr b)) \<and>
       ls R SAVED_KEY =
         Some (JSON_stringify (VObj (spread_over [(''itinerary_id'', tid)] data))) \<and>
       ls R STORAGE_KEY = None \<and> ls R CURRENT_KEY = None \<and>
       nav R = Some (ItineraryDetail tid) \<and>
       pendingItems (st R) = [] \<and> currentItinerary (st R) = VNull"
    then obtain tid payload data pre where
      a: "api (Post (ItinerarySave tid) payload) = Inr data" and
      cs: "calls R = pre @ [Post (ItinerarySave tid) payload]" and
      pre: "pre = [] \<or> (\<exists>d b. pre = [create_request d, Get Itineraries VUndefined] \<and>
                           api (create_request d) = Inr b)"
      by blast
    from c cs have "Post ep body = Post (ItinerarySave tid) payload \<or> Post ep body \<in> set pre"
      by auto
    then have "\<not> isl (api (Post ep body))"
    proof
      assume "Post ep body = Post (ItinerarySave tid) payload"
      with a show ?thesis by simp
    next
      assume m: "Post ep body \<in> set pre"
      with pre obtain d b where "pre = [create_request d, Get Itineraries VUndefined]"
        and b: "api (create_request d) = Inr b" by auto
      with m have "Post ep body = create_request d" by simp
      with b show ?thesis by simp
    qed
    with f have False by simp
    then show ?thesis ..
  qed
  then show ?thesis by (simp add: R_def)
qed

theorem save_failure_keeps_staged_state_witness:
  "(\<exists>ep body. Post ep body \<in> set (calls (handleSaveAllToItinerary server_rejects_save
                                           page_state page_storage)) \<and>
              isl (server_rejects_save (Post ep body))) \<and>
   ls (handleSaveAllToItinerary server_rejects_save page_state page_storage) STORAGE_KEY =
     page_storage STORAGE_KEY \<and>
   pendingItems (st (handleSaveAllToItinerary server_rejects_save page_state page_storage)) =
     pendingItems page_state \<and>
   ls (handleSaveAllToItinerary server_rejects_save page_state page_storage) CURRENT_KEY \<noteq> None \<and>
   nav (handleSaveAllToItinerary server_rejects_save page_state page_storage) = None"
proof -
  have c: "calls (handleSaveAllToItinerary server_rejects_save page_state page_storage) =
    [Post ItinerariesCreateFromFlights
       (VObj [(''departure_date'', VStr ''2025-03-01''), (''return_date'', VStr ''2025-03-08''),
              (''title'', VStr ''Rome'')]),
     Get Itineraries VUndefined,
     Post (ItinerarySave (VNum 7))
       (VObj [(''flights'', VArr []),
              (''items'', VArr [VObj [(''name'', VStr ''Hotel A''), (''price'', VNum 120),
                                      (''type'', VStr ''hotel'')]])])]"
    by (simp add: run_defs page_state_def page_storage_def server_rejects_save_def
        server_ok_def)
  have f: "isl (server_rejects_save (Post (ItinerarySave (VNum 7))
       (VObj [(''flights'', VArr []),
              (''items'', VArr [VObj [(''name'', VStr ''Hotel A''), (''price'', VNum 120),
                                      (''type'', VStr ''hotel'')]])])))"
    by (simp add: server_rejects_save_def)
  have h: "\<exists>ep body. Post ep body \<in> set (calls (handleSaveAllToItinerary server_rejects_save
                                           page_state page_storage)) \<and>
              isl (server_rejects_save (Post ep body))"
    using c f by auto
  have p: "page_storage CURRENT_KEY \<noteq> None"
    by (simp add: page_storage_def)
  show ?thesis
    using h p save_failure_keeps_staged_state [OF h] by blast
qed

text \<open>
  C2. When the save call of a run of \<^verbatim>\<open>handleSaveAllToItinerary\<close> resolves, the record
  \<^verbatim>\<open>planit_saved_data\<close> holds the object \<^verbatim>\<open>{ itinerary_id: target, ...response.data }\<close>
  (the fields of the response over the id of the target itinerary), the record of the
  pending items is gone and \<^verbatim>\<open>getPendingItems\<close> returns the empty sequence, as the page's
  copy is, the record of the draft itinerary is gone, and the page navigates to the
  detail view of the target itinerary.
\<close>

theorem save_success_commits:
  assumes "Post (ItinerarySave tid) body \<in> set (calls (handleSaveAllToItinerary api s l))"
    and "api (Post (ItinerarySave tid) body) = Inr data"
  shows "ls (handleSaveAllToItinerary api s l) SAVED_KEY =
           Some (JSON_stringify (VObj (spread_over [(''itinerary_id'', tid)] data))) \<and>
         ls (handleSaveAllToItinerary api s l) STORAGE_KEY = None \<and>
         getPendingItems (ls (handleSaveAllToItinerary api s l)) = Inr (VArr []) \<and>
         pendingItems (st (handleSaveAllToItinerary api s l)) = [] \<and>
         ls (handleSaveAllToItinerary api s l) CURRENT_KEY = None \<and>
         currentItinerary (st (handleSaveAllToItinerary api s l)) = VNull \<and>
         nav (handleSaveAllToItinerary api s l) = Some (ItineraryDetail tid)"
proof (cases "pendingItems s = []")
  case True
  with assms show ?thesis by (simp add: handleSaveAll_empty)
next
  case False
  define R where "R = handleSaveAllToItinerary api s l"
  have c: "Post (ItinerarySave tid) body \<in> set (calls R)"
    using assms(1) by (simp add: R_def)
  from handleSaveAll_outcomes [OF False, of api l, folded R_def]
  have "ls R SAVED_KEY =
           Some (JSON_stringify (VObj (spread_over [(''itinerary_id'', tid)] data))) \<and>
        ls R STORAGE_KEY = None \<and> getPendingItems (ls R) = Inr (VArr []) \<and>
        pendingItems (st R) = [] \<and> ls R CURRENT_KEY = None \<and>
        currentItinerary (st R) = VNull \<and> nav R = Some (ItineraryDetail tid)"
  proof
    assume "nav R = None \<and> pendingItems (st R) = pendingItems s \<and>
       (\<forall>k. k \<noteq> CURRENT_KEY \<longrightarrow> ls R k = l k) \<and>
       (l CURRENT_KEY \<noteq> None \<longrightarrow> ls R CURRENT_KEY \<noteq> None) \<and>
       (\<forall>tid body. Post (ItinerarySave tid) body \<in> set (calls R) \<longrightarrow>
            isl (api (Post (ItinerarySave tid) body)))"
    with c have "isl (api (Post (ItinerarySave tid) body))" by blast
    with assms(2) have False by simp
    then show ?thesis ..
  next
    assume "\<exists>tid body data pre.
       save_payload (pendingItems s) = Inr body \<and>
       api (Post (ItinerarySave tid) body) = Inr data \<and>
       calls R = pre @ [Post (ItinerarySave tid) body] \<and>
       (pre = [] \<or> (\<exists>d b. pre = [create_request d, Get Itineraries VUndefined] \<and>
                           api (create_request d) = Inr b)) \<and>
       ls R SAVED_KEY =
         Some (JSON_stringify (VObj (spread_over [(''itinerary_id'', tid)] data))) \<and>
       ls R STORAGE_KEY = None \<and> ls R CURRENT_KEY = None \<and>
       nav R = Some (ItineraryDetail tid) \<and>
       pendingItems (st R) = [] \<and> currentItinerary (st R) = VNull"
    then obtain tid' payload data' pre where
      a: "api (Post (ItinerarySave tid') payload) = Inr data'" and
      cs: "calls R = pre @ [Post (ItinerarySave tid') payload]" and
      pre: "pre = [] \<or> (\<exists>d b. pre = [create_request d, Get Itineraries VUndefined] \<and>
                           api (create_request d) = Inr b)" and
      rest: "ls R SAVED_KEY =
           Some (JSON_stringify (VObj (spread_over [(''itinerary_id'', tid')] data')))"
        "ls R STORAGE_KEY = None" "ls R CURRENT_KEY = None"
        "nav R = Some (ItineraryDetail tid')"
        "pendingItems (st R) = []" "currentItinerary (st R) = VNull"
      by blast
    have n: "\<And>d. Post (ItinerarySave tid) body \<noteq> create_request d"
      using create_request_is_post by (metis endpoint.distinct(4) endpoint.distinct(10) request.inject(2))
    have "Post (ItinerarySave tid) body \<notin> set pre"
    proof
      assume m: "Post (ItinerarySave tid) body \<in> set pre"
      with pre obtain d where "pre = [create_request d, Get Itineraries VUndefined]" by auto
      with m n [of d] show False by simp
    qed
    with c cs have "tid = tid' \<and> body = payload" by simp
    with a assms(2) have "tid = tid' \<and> data = data'" by simp
    with rest show ?thesis by (simp add: getPendingItems_def)
  qed
  then show ?thesis by (simp add: R_def)
qed

theorem save_success_commits_witness:
  "Post (ItinerarySave (VNum 7))
       (VObj [(''flights'', VArr []),
              (''items'', VArr [VObj [(''name'', VStr ''Hotel A''), (''price'', VNum 120),
                                      (''type'', VStr ''hotel'')]])])
     \<in> set (calls (handleSaveAllToItinerary server_ok page_state page_storage)) \<and>
   ls (handleSaveAllToItinerary server_ok page_state page_storage) SAVED_KEY =
     Some (Serialized (JObj [(''itinerary_id'', JNum 7), (''saved'', JBool True)])) \<and>
   getPendingItems (ls (handleSaveAllToItinerary server_ok page_state page_storage)) =
     Inr (VArr []) \<and>
   ls (handleSaveAllToItinerary server_ok page_state page_storage) CURRENT_KEY = None \<and>
   nav (handleSaveAllToItinerary server_ok page_state page_storage) =
     Some (ItineraryDetail (VNum 7))"
proof -
  have c: "Post (ItinerarySave (VNum 7))
       (VObj [(''flights'', VArr []),
              (''items'', VArr [VObj [(''name'', VStr ''Hotel A''), (''price'', VNum 120),
                                      (''type'', VStr ''hotel'')]])])
     \<in> set (calls (handleSaveAllToItinerary server_ok page_state page_storage))"
    by (simp add: run_defs page_state_def page_storage_def server_ok_def
       )
  have a: "server_ok (Post (ItinerarySave (VNum 7))
       (VObj [(''flights'', VArr []),
              (''items'', VArr [VObj [(''name'', VStr ''Hotel A''), (''price'', VNum 120),
                                      (''type'', VStr ''hotel'')]])]))
     = Inr (VObj [(''saved'', VBool True)])"
    by (simp add: server_ok_def)
  have j: "JSON_stringify (VObj (spread_over [(''itinerary_id'', VNum 7)]
             (VObj [(''saved'', VBool True)]))) =
           Serialized (JObj [(''itinerary_id'', JNum 7), (''saved'', JBool True)])"
    by (simp add: JSON_stringify_def spread_over_def)
  show ?thesis
    using c save_success_commits [OF c a] j by simp
qed

text \<open>
  C4. In a run of \<^verbatim>\<open>handleSaveAllToItinerary\<close> with pending items, no itinerary selected
  and a draft record that is missing or parses to \<open>d\<close>, the first call is the creation:
  from the dates, with the departure date, the return date and the title of \<open>d\<close> (or no
  title), when \<open>d\<close> has a departure date and a return date, and of an empty itinerary
  otherwise. When that call resolves with a body that has an \<^verbatim>\<open>itinerary_id\<close>, this id
  becomes the selected itinerary and the save request, when the payload can be built,
  goes to it.
\<close>

theorem save_creates_itinerary:
  assumes "pendingItems s \<noteq> []" and "\<not> truthy (selectedItineraryId s)"
    and "read_current_itinerary l = Inr d"
  shows "(\<exists>rest. calls (handleSaveAllToItinerary api s l) =
            (if truthy d \<and> truthy (opt_get d ''departure_date'')
                \<and> truthy (opt_get d ''return_date'')
             then Post ItinerariesCreateFromFlights
                    (VObj [(''departure_date'', opt_get d ''departure_date''),
                           (''return_date'', opt_get d ''return_date''),
                           (''title'', js_or (opt_get d ''title'') VUndefined)])
             else Post Itineraries (VObj [])) # rest) \<and>
         (\<forall>b tid. api (create_request d) = Inr b \<and> get_prop b ''itinerary_id'' = Inr tid \<longrightarrow>
            selectedItineraryId (st (handleSaveAllToItinerary api s l)) = tid \<and>
            (\<forall>payload. save_payload (pendingItems s) = Inr payload \<longrightarrow>
               calls (handleSaveAllToItinerary api s l) =
                 [create_request d, Get Itineraries VUndefined,
                  Post (ItinerarySave tid) payload]))"
proof -
  define r1 where "r1 = \<lparr>st = s\<lparr>adding := True, error := VStr []\<rparr>, ls = l, calls = [], nav = None\<rparr>"
  define R where "R = handleSaveAllToItinerary api s l"
  have R: "R = save_finally
                (case resolveTarget api s r1 of
                   Inl (err, r2) \<Rightarrow> save_failed err r2
                 | Inr (None, r2) \<Rightarrow> r2
                 | Inr (Some itineraryId, r2) \<Rightarrow>
                     (case saveItems api s itineraryId r2 of
                        Inl (err, r3) \<Rightarrow> save_failed err r3
                      | Inr r3 \<Rightarrow> r3))"
    using assms(1) by (simp add: R_def handleSaveAllToItinerary_def r1_def)
  have r1: "ls r1 = l" "calls r1 = []" by (simp_all add: r1_def)
  have first: "\<exists>rest. calls R = create_request d # rest"
  proof -
    from resolveTarget_create [of s r1 d api] assms r1 obtain x r2 rest where
      rt: "resolveTarget api s r1 = Inr (x, r2)" and c2: "calls r2 = create_request d # rest"
      by auto
    show ?thesis
    proof (cases x)
      case None
      with R rt c2 show ?thesis by (simp add: save_finally_keeps)
    next
      case (Some tid)
      show ?thesis
      proof (cases "saveItems api s tid r2")
        case (Inl a)
        obtain e r3 where a: "a = (e, r3)" by (cases a)
        from saveItems_Inl [of api s tid r2 e r3] Inl a c2
        have "\<exists>rest'. calls r3 = create_request d # rest'" by auto
        with R rt Some Inl a show ?thesis
          by (simp add: save_finally_keeps save_failed_keeps)
      next
        case (Inr r3)
        from saveItems_Inr [OF Inr] c2
        have "\<exists>rest'. calls r3 = create_request d # rest'" by auto
        with R rt Some Inr show ?thesis by (simp add: save_finally_keeps)
      qed
    qed
  qed
  have target: "selectedItineraryId (st R) = tid \<and>
            (\<forall>payload. save_payload (pendingItems s) = Inr payload \<longrightarrow>
               calls R = [create_request d, Get Itineraries VUndefined,
                          Post (ItinerarySave tid) payload])"
    if b: "api (create_request d) = Inr b" and t: "get_prop b ''itinerary_id'' = Inr tid"
    for b tid
  proof -
    from b t obtain r2 where c: "createItinerary api s d r1 = Inr (tid, r2)"
      by (simp add: createItinerary_def Let_def)
    from createItinerary_Inr [OF c] r1 have
      c2: "calls r2 = [create_request d, Get Itineraries VUndefined]" and
      s2: "selectedItineraryId (st r2) = tid" by simp_all
    have rt: "resolveTarget api s r1 = Inr (Some tid, r2)"
      using assms c r1 by (simp add: resolveTarget_def)
    show ?thesis
    proof (cases "saveItems api s tid r2")
      case (Inl a)
      obtain e r3 where a: "a = (e, r3)" by (cases a)
      from saveItems_Inl [of api s tid r2 e r3] Inl a
      have "st r3 = st r2" by simp
      moreover have "\<And>payload. save_payload (pendingItems s) = Inr payload \<Longrightarrow>
          calls r3 = calls r2 @ [Post (ItinerarySave tid) payload]"
        using Inl a by (auto simp: saveItems_def Let_def split: sum.splits)
      ultimately show ?thesis
        using R rt Inl a c2 s2 by (simp add: save_finally_keeps save_failed_keeps)
    next
      case (Inr r3)
      have "selectedItineraryId (st r3) = selectedItineraryId (st r2)"
        using Inr by (auto simp: saveItems_def Let_def split: sum.splits)
      moreover from saveItems_Inr [OF Inr] have
        "\<And>payload. save_payload (pendingItems s) = Inr payload \<Longrightarrow>
          calls r3 = calls r2 @ [Post (ItinerarySave tid) payload]"
        by auto
      ultimately show ?thesis
        using R rt Inr c2 s2 by (simp add: save_finally_keeps)
    qed
  qed
  from first target show ?thesis
    unfolding R_def by (simp add: create_request_def)
qed

theorem save_creates_itinerary_witness:
  "pendingItems page_state \<noteq> [] \<and> \<not> truthy (selectedItineraryId page_state) \<and>
   read_current_itinerary page_storage =
     Inr (VObj [(''title'', VStr ''Rome''), (''departure_date'', VStr ''2025-03-01''),
                (''return_date'', VStr ''2025-03-08'')]) \<and>
   (\<exists>rest. calls (handleSaveAllToItinerary server_ok page_state page_storage) =
      Post ItinerariesCreateFromFlights
        (VObj [(''departure_date'', VStr ''2025-03-01''), (''return_date'', VStr ''2025-03-08''),
               (''title'', VStr ''Rome'')]) # rest) \<and>
   selectedItineraryId (st (handleSaveAllToItinerary server_ok page_state page_storage)) = VNum 7"
proof -
  have h1: "pendingItems page_state \<noteq> []"
    by (simp add: page_state_def initial_state_def)
  have h2: "\<not> truthy (selectedItineraryId page_state)"
    by (simp add: page_state_def initial_state_def)
  have h3: "read_current_itinerary page_storage =
     Inr (VObj [(''title'', VStr ''Rome''), (''departure_date'', VStr ''2025-03-01''),
                (''return_date'', VStr ''2025-03-08'')])"
    by (simp add: read_current_itinerary_def page_storage_def JSON_parse_def CURRENT_KEY_def
        STORAGE_KEY_def)
  have a: "server_ok (create_request (VObj [(''title'', VStr ''Rome''),
              (''departure_date'', VStr ''2025-03-01''), (''return_date'', VStr ''2025-03-08'')]))
           = Inr (VObj [(''itinerary_id'', VNum 7)])"
    by (simp add: server_ok_def create_request_def lookup_def)
  have g: "get_prop (VObj [(''itinerary_id'', VNum 7)]) ''itinerary_id'' = Inr (VNum 7)"
    by (simp add: get_prop_def lookup_def)
  show ?thesis
    using h1 h2 h3 a g save_creates_itinerary [OF h1 h2 h3, of server_ok]
    by (simp add: lookup_def js_or_def)
qed

section \<open>Facts about the search results\<close>

lemma map_of_set_prop: "map_of (set_prop kvs k v) = (map_of kvs)(k \<mapsto> v)"
  by (induction kvs) (auto simp: fun_eq_iff)

lemma lookup_set_prop_other: "k' \<noteq> k \<Longrightarrow> lookup (set_prop kvs k v) k' = lookup kvs k'"
  by (simp add: lookup_def map_of_set_prop)

lemma opt_get_normalizeAttraction:
  assumes "truthy item" and "k \<noteq> ''image_url''" and "k \<noteq> ''xid''" and "k \<noteq> ''length''"
  shows "opt_get (normalizeAttraction item) k = opt_get item k"
  using assms
  by (cases item) (simp_all add: normalizeAttraction_def Let_def lookup_def map_of_set_prop)

lemma isHotelLike_normalizeAttraction: "isHotelLike (normalizeAttraction item) = isHotelLike item"
proof (cases "truthy item")
  case False
  then show ?thesis by (simp add: normalizeAttraction_def)
next
  case True
  then have "truthy (normalizeAttraction item)"
    by (simp add: normalizeAttraction_def Let_def)
  with True show ?thesis
    by (simp add: isHotelLike_def opt_get_normalizeAttraction)
qed

lemma isHotelLike_iff:
  "isHotelLike item \<longleftrightarrow>
     truthy item \<and>
     (truthy (opt_get item ''hotel_id'') \<or> truthy (opt_get item ''hotel_key'') \<or>
      truthy (opt_get item ''price_per_night'') \<or> truthy (opt_get item ''rating'') \<or>
      truthy (opt_get item ''address''))"
  by (auto simp: isHotelLike_def js_or_def)

lemma searchAttractions_array:
  assumes "api (Get SearchAttractions (VObj [(''location'', VStr (query s))])) = Inr data"
    and "truthy data" and "opt_get data ''attractions'' = VArr raw"
  shows "results (st (searchAttractions api s r)) =
           filter (\<lambda>it. \<not> isHotelLike it) (map normalizeAttraction raw) \<and>
         error (st (searchAttractions api s r)) =
           (if filter (\<lambda>it. \<not> isHotelLike it) (map normalizeAttraction raw) = [] \<and> raw \<noteq> []
            then VStr ''Attractions endpoint returned results that appear to be hotels; none shown.''
            else error (st r))"
  using assms by (simp add: searchAttractions_def Let_def)

section \<open>The search results: the claim\<close>

text \<open>
  C9. \<^verbatim>\<open>isHotelLike\<close> holds of a record that is truthy and has a truthy \<^verbatim>\<open>hotel_id\<close>,
  \<^verbatim>\<open>hotel_key\<close>, \<^verbatim>\<open>price_per_night\<close>, \<^verbatim>\<open>rating\<close> or \<^verbatim>\<open>address\<close>. When an attractions
  search resolves with a body whose \<^verbatim>\<open>attractions\<close> is the array \<open>raw\<close>, the results are
  the normalized records of \<open>raw\<close> that are not hotel-like, in order: none of the results
  is hotel-like and no hotel-like record of \<open>raw\<close> is among them. The error is the notice
  that the results appear to be hotels exactly when \<open>raw\<close> has records and none is left;
  it is empty when \<open>raw\<close> is empty and when a result is left.
\<close>

theorem attractions_search_drops_hotels:
  assumes "trim (query s) \<noteq> []"
    and "js_or forceType (VStr (SearchType_str (searchType s))) = VStr ''attractions''"
    and "api (Get SearchAttractions (VObj [(''location'', VStr (query s))])) = Inr data"
    and "truthy data" and "opt_get data ''attractions'' = VArr raw"
  shows "results (st (handleSearch api forceType s l)) =
           map normalizeAttraction (filter (\<lambda>it. \<not> isHotelLike it) raw) \<and>
         (\<forall>it \<in> set (results (st (handleSearch api forceType s l))). \<not> isHotelLike it) \<and>
         (\<forall>it \<in> set raw. isHotelLike it \<longrightarrow>
            normalizeAttraction it \<notin> set (results (st (handleSearch api forceType s l)))) \<and>
         (\<forall>it. isHotelLike it \<longleftrightarrow>
            truthy it \<and>
            (truthy (opt_get it ''hotel_id'') \<or> truthy (opt_get it ''hotel_key'') \<or>
             truthy (opt_get it ''price_per_night'') \<or> truthy (opt_get it ''rating'') \<or>
             truthy (opt_get it ''address''))) \<and>
         error (st (handleSearch api forceType s l)) =
           (if raw \<noteq> [] \<and> results (st (handleSearch api forceType s l)) = []
            then VStr ''Attractions endpoint returned results that appear to be hotels; none shown.''
            else VStr [])"
proof -
  define r1 where
    "r1 = \<lparr>st = s\<lparr>loading := True, error := VStr [], successMessage := []\<rparr>,
           ls = l, calls = [], nav = None\<rparr>"
  have H: "handleSearch api forceType s l = search_finally (searchAttractions api s r1)"
    using assms(1,2) by (simp add: handleSearch_def Let_def r1_def)
  have f: "filter (\<lambda>it. \<not> isHotelLike it) (map normalizeAttraction raw) =
           map normalizeAttraction (filter (\<lambda>it. \<not> isHotelLike it) raw)"
    by (simp add: filter_map comp_def isHotelLike_normalizeAttraction)
  have res: "results (st (handleSearch api forceType s l)) =
           map normalizeAttraction (filter (\<lambda>it. \<not> isHotelLike it) raw)"
    using searchAttractions_array [where api = api and s = s and r = r1, OF assms(3,4,5)] f
    by (simp add: H search_finally_def)
  have err: "error (st (handleSearch api forceType s l)) =
           (if raw \<noteq> [] \<and> results (st (handleSearch api forceType s l)) = []
            then VStr ''Attractions endpoint returned results that appear to be hotels; none shown.''
            else VStr [])"
    using searchAttractions_array [where api = api and s = s and r = r1, OF assms(3,4,5)] f res
    by (simp add: H search_finally_def r1_def)
  have none: "\<forall>it \<in> set (results (st (handleSearch api forceType s l))). \<not> isHotelLike it"
    by (auto simp: res isHotelLike_normalizeAttraction)
  have gone: "\<forall>it \<in> set raw. isHotelLike it \<longrightarrow>
            normalizeAttraction it \<notin> set (results (st (handleSearch api forceType s l)))"
  proof (intro ballI impI notI)
    fix it assume "isHotelLike it"
      and "normalizeAttraction it \<in> set (results (st (handleSearch api forceType s l)))"
    with none have "\<not> isHotelLike (normalizeAttraction it)" by blast
    with \<open>isHotelLike it\<close> show False by (simp add: isHotelLike_normalizeAttraction)
  qed
  have iff: "\<forall>it. isHotelLike it \<longleftrightarrow>
            truthy it \<and>
            (truthy (opt_get it ''hotel_id'') \<or> truthy (opt_get it ''hotel_key'') \<or>
             truthy (opt_get it ''price_per_night'') \<or> truthy (opt_get it ''rating'') \<or>
             truthy (opt_get it ''address''))"
    by (intro allI) (rule isHotelLike_iff)
  show ?thesis by (intro conjI res none gone iff err)
qed

theorem attractions_search_drops_hotels_witness:
  "results (st (handleSearch search_server VUndefined (initial_state\<lparr>query := ''Paris''\<rparr>)
                  empty_storage)) =
     [VObj [(''name'', VStr ''Museum''), (''id'', VStr ''m1''), (''image_url'', VNull),
            (''xid'', VStr ''m1'')]] \<and>
   error (st (handleSearch search_server VUndefined (initial_state\<lparr>query := ''Paris''\<rparr>)
                  empty_storage)) = VStr [] \<and>
   results (st (handleSearch search_server VUndefined (initial_state\<lparr>query := ''Rome''\<rparr>)
                  empty_storage)) = [] \<and>
   error (st (handleSearch search_server VUndefined (initial_state\<lparr>query := ''Rome''\<rparr>)
                  empty_storage)) =
     VStr ''Attractions endpoint returned results that appear to be hotels; none shown.''"
proof -
  have q1: "trim (query (initial_state\<lparr>query := ''Paris''\<rparr>)) \<noteq> []"
    by (simp add: trim_def trimStart_def trimEnd_def is_space_def is_space2_def is_space3_def)
  have q2: "trim (query (initial_state\<lparr>query := ''Rome''\<rparr>)) \<noteq> []"
    by (simp add: trim_def trimStart_def trimEnd_def is_space_def is_space2_def is_space3_def)
  have t1: "js_or VUndefined (VStr (SearchType_str (searchType (initial_state\<lparr>query := ''Paris''\<rparr>))))
            = VStr ''attractions''"
    by (simp add: js_or_def initial_state_def)
  have t2: "js_or VUndefined (VStr (SearchType_str (searchType (initial_state\<lparr>query := ''Rome''\<rparr>))))
            = VStr ''attractions''"
    by (simp add: js_or_def initial_state_def)
  have a1: "search_server (Get SearchAttractions
              (VObj [(''location'', VStr (query (initial_state\<lparr>query := ''Paris''\<rparr>)))])) =
            Inr (VObj [(''attractions'', VArr
             [VObj [(''name'', VStr ''Museum''), (''id'', VStr ''m1'')],
              VObj [(''name'', VStr ''Inn''), (''hotel_id'', VStr ''h1''),
                    (''price_per_night'', VNum 80)]])])"
    by (simp add: search_server_def)
  have a2: "search_server (Get SearchAttractions
              (VObj [(''location'', VStr (query (initial_state\<lparr>query := ''Rome''\<rparr>)))])) =
            Inr (VObj [(''attractions'', VArr
             [VObj [(''name'', VStr ''Inn''), (''hotel_id'', VStr ''h1''),
                    (''price_per_night'', VNum 80)]])])"
    by (simp add: search_server_def)
  have d1: "opt_get (VObj [(''attractions'', VArr
             [VObj [(''name'', VStr ''Museum''), (''id'', VStr ''m1'')],
              VObj [(''name'', VStr ''Inn''), (''hotel_id'', VStr ''h1''),
                    (''price_per_night'', VNum 80)]])]) ''attractions'' =
            VArr [VObj [(''name'', VStr ''Museum''), (''id'', VStr ''m1'')],
              VObj [(''name'', VStr ''Inn''), (''hotel_id'', VStr ''h1''),
                    (''price_per_night'', VNum 80)]]"
    by (simp add: lookup_def)
  have d2: "opt_get (VObj [(''attractions'', VArr
             [VObj [(''name'', VStr ''Inn''), (''hotel_id'', VStr ''h1''),
                    (''price_per_night'', VNum 80)]])]) ''attractions'' =
            VArr [VObj [(''name'', VStr ''Inn''), (''hotel_id'', VStr ''h1''),
                    (''price_per_night'', VNum 80)]]"
    by (simp add: lookup_def)
  have e: "isHotelLike (VObj [(''name'', VStr ''Inn''), (''hotel_id'', VStr ''h1''),
                    (''price_per_night'', VNum 80)])"
       "\<not> isHotelLike (VObj [(''name'', VStr ''Museum''), (''id'', VStr ''m1'')])"
       "normalizeAttraction (VObj [(''name'', VStr ''Museum''), (''id'', VStr ''m1'')]) =
        VObj [(''name'', VStr ''Museum''), (''id'', VStr ''m1''), (''image_url'', VNull),
            (''xid'', VStr ''m1'')]"
    by (simp_all add: isHotelLike_def normalizeAttraction_def js_or_def lookup_def)
  have td: "\<And>x. truthy (VObj x)" by simp
  note w1 = attractions_search_drops_hotels
        [where api = search_server and s = "initial_state\<lparr>query := ''Paris''\<rparr>"
           and forceType = VUndefined and l = empty_storage, OF q1 t1 a1 td d1]
  note w2 = attractions_search_drops_hotels
        [where api = search_server and s = "initial_state\<lparr>query := ''Rome''\<rparr>"
           and forceType = VUndefined and l = empty_storage, OF q2 t2 a2 td d2]
  have r1: "results (st (handleSearch search_server VUndefined
              (initial_state\<lparr>query := ''Paris''\<rparr>) empty_storage)) =
     [VObj [(''name'', VStr ''Museum''), (''id'', VStr ''m1''), (''image_url'', VNull),
            (''xid'', VStr ''m1'')]]"
    using w1 [THEN conjunct1] e by simp
  have r2: "results (st (handleSearch search_server VUndefined
              (initial_state\<lparr>query := ''Rome''\<rparr>) empty_storage)) = []"
    using w2 [THEN conjunct1] e by simp
  have e1: "error (st (handleSearch search_server VUndefined
              (initial_state\<lparr>query := ''Paris''\<rparr>) empty_storage)) = VStr []"
    using w1 [THEN conjunct2, THEN conjunct2, THEN conjunct2, THEN conjunct2] r1 by simp
  have e2: "error (st (handleSearch search_server VUndefined
              (initial_state\<lparr>query := ''Rome''\<rparr>) empty_storage)) =
     VStr ''Attractions endpoint returned results that appear to be hotels; none shown.''"
    using w2 [THEN conjunct2, THEN conjunct2, THEN conjunct2, THEN conjunct2] r2 by simp
  show ?thesis by (intro conjI r1 e1 r2 e2)
qed

end
